theory Spec2Isabelle
  imports Main "HOL-Library.Sublist"
begin

section \<open>Python strings and the built-ins the booking code calls\<close>

text \<open>
  A Python \<open>str\<close> is a sequence of Unicode code points, so a string is modelled as the list
  of its code points. This matters for the validators: a \<open>\d\<close> of the \<open>re\<close> module and
  the built-in \<open>int\<close> both accept every character with the Unicode property
  ``decimal digit'' (category Nd), not only \<open>0\<close> to \<open>9\<close>.
\<close>

type_synonym str = "nat list"

definition ascii :: "string \<Rightarrow> str" where
  "ascii s = map of_char s"

text \<open>
  The decimal digits of Unicode 14 (the table of CPython 3.11) come in runs of ten
  consecutive code points, zero first. \<open>decimal_zeros\<close> lists the zero of each run.
\<close>

definition decimal_zeros :: "nat list" where
  "decimal_zeros =
     [48, 1632, 1776, 1984, 2406, 2534, 2662, 2790, 2918, 3046, 3174, 3302, 3430, 3558,
      3664, 3792, 3872, 4160, 4240, 6112, 6160, 6470, 6608, 6784, 6800, 6992, 7088, 7232,
      7248, 42528, 43216, 43264, 43472, 43504, 43600, 44016, 65296, 66720, 68912, 69734,
      69872, 69942, 70096, 70384, 70736, 70864, 71248, 71360, 71472, 71904, 72016, 72784,
      73040, 73120, 92768, 92864, 93008, 120782, 120792, 120802, 120812, 120822, 123200,
      123632, 125264, 130032]"

definition decimal_value :: "nat \<Rightarrow> nat option" where
  "decimal_value c =
     (case find (\<lambda>z. z \<le> c \<and> c < z + 10) decimal_zeros of
        None \<Rightarrow> None
      | Some z \<Rightarrow> Some (c - z))"

definition is_digit :: "nat \<Rightarrow> bool" where
  "is_digit c = (decimal_value c \<noteq> None)"

text \<open>
  \<open>str.split(sep)\<close> with a one-character separator: the pieces between the separators,
  always at least one piece.
\<close>

fun split_on :: "nat \<Rightarrow> str \<Rightarrow> str list" where
  "split_on sep [] = [[]]"
| "split_on sep (c # cs) =
     (if c = sep then [] # split_on sep cs
      else (case split_on sep cs of
              [] \<Rightarrow> [[c]]
            | p # ps \<Rightarrow> (c # p) # ps))"

text \<open>
  \<open>int(s)\<close> in base ten: white space is dropped at both ends, one sign may follow, then
  decimal digits with single underscores allowed between two digits. Anything else raises
  \<open>ValueError\<close>, which is \<open>None\<close> here. The interpreter's optional cap on the number of
  digits of such a literal is not part of the model.
\<close>

definition int_space :: "nat \<Rightarrow> bool" where
  "int_space c =
     (c \<in> set [9, 10, 11, 12, 13, 32, 133, 160, 5760, 8192, 8193, 8194, 8195, 8196, 8197,
               8198, 8199, 8200, 8201, 8202, 8232, 8233, 8239, 8287, 12288])"

definition int_strip :: "str \<Rightarrow> str" where
  "int_strip s = rev (dropWhile int_space (rev (dropWhile int_space s)))"

fun int_digits :: "bool \<Rightarrow> nat \<Rightarrow> str \<Rightarrow> nat option" where
  "int_digits after_digit acc [] = (if after_digit then Some acc else None)"
| "int_digits after_digit acc (c # cs) =
     (if c = 95 then (if after_digit then int_digits False acc cs else None)
      else (case decimal_value c of
              None \<Rightarrow> None
            | Some d \<Rightarrow> int_digits True (acc * 10 + d) cs))"

definition py_int :: "str \<Rightarrow> int option" where
  "py_int s =
     (case int_strip s of
        [] \<Rightarrow> None
      | c # cs \<Rightarrow>
          (if c = 45 then map_option (\<lambda>n. - int n) (int_digits False 0 cs)
           else if c = 43 then map_option int (int_digits False 0 cs)
           else map_option int (int_digits False 0 (c # cs))))"

section \<open>Minutes since midnight\<close>

text \<open>
  \<open>parse_time_to_minutes\<close> (the same in both variants): unpacking the split into two names
  and the two \<open>int\<close> calls raise \<open>ValueError\<close>, which the function turns into \<open>-1\<close>.
\<close>

definition parse_time_to_minutes :: "str \<Rightarrow> int" where
  "parse_time_to_minutes time_str =
     (case split_on 58 time_str of
        [h, m] \<Rightarrow>
          (case py_int h of
             None \<Rightarrow> - 1
           | Some hv \<Rightarrow>
               (case py_int m of
                  None \<Rightarrow> - 1
                | Some mv \<Rightarrow> hv * 60 + mv))
      | _ \<Rightarrow> - 1)"

section \<open>Bookings and the conflict check\<close>

record booking =
  booking_id :: int
  unit :: str
  facility_type :: str
  date :: str
  start_time :: str
  end_time :: str
  status :: str
  created_by :: str

text \<open>
  \<open>AmenityWindow.has_conflict\<close> (the same in both variants). The loop over
  \<open>self.bookings\<close> is \<open>conflict_loop\<close>; \<open>continue\<close> and falling through to the next
  iteration are the recursive calls, \<open>return True\<close> ends the loop.
\<close>

fun conflict_loop :: "booking \<Rightarrow> int \<Rightarrow> int \<Rightarrow> booking list \<Rightarrow> bool" where
  "conflict_loop new_booking new_start new_end [] = False"
| "conflict_loop new_booking new_start new_end (b # bs) =
     (if booking_id b = booking_id new_booking then conflict_loop new_booking new_start new_end bs
      else if facility_type b = facility_type new_booking \<and> date b = date new_booking then
        (let start = parse_time_to_minutes (start_time b);
             end = parse_time_to_minutes (end_time b)
         in if start < new_end \<and> new_start < end then True
            else conflict_loop new_booking new_start new_end bs)
      else conflict_loop new_booking new_start new_end bs)"

definition has_conflict :: "booking \<Rightarrow> booking list \<Rightarrow> bool" where
  "has_conflict new_booking bookings =
     (let new_start = parse_time_to_minutes (start_time new_booking);
          new_end = parse_time_to_minutes (end_time new_booking)
      in if new_start < 0 \<or> new_end < 0 then False
         else conflict_loop new_booking new_start new_end bookings)"

section \<open>The validators of the SQLite variant\<close>

text \<open>
  Every failure of the validators is a Python \<open>ValueError\<close>; the constructors below name
  the message. \<open>Unpack_error\<close> and \<open>Int_literal_error\<close> are the \<open>ValueError\<close>s of a tuple
  unpacking of the wrong length and of \<open>int\<close> on a string it cannot read.
\<close>

datatype value_error =
    Date_format
  | Invalid_date_value
  | Date_too_early
  | Time_format str
  | Hour_range str
  | Minute_range str
  | Start_not_earlier
  | Unpack_error
  | Int_literal_error

text \<open>
  \<open>re.fullmatch\<close> for the two patterns in use, \<open>\d{4}-\d{2}-\d{2}\<close> and \<open>\d{2}:\d{2}\<close>:
  a pattern is a sequence of items that each match one character.
\<close>

datatype pat = Digit | Lit nat

fun fullmatch :: "pat list \<Rightarrow> str \<Rightarrow> bool" where
  "fullmatch [] [] = True"
| "fullmatch (Digit # ps) (c # cs) = (is_digit c \<and> fullmatch ps cs)"
| "fullmatch (Lit l # ps) (c # cs) = (c = l \<and> fullmatch ps cs)"
| "fullmatch _ _ = False"

definition date_pattern :: "pat list" where
  "date_pattern = [Digit, Digit, Digit, Digit, Lit 45, Digit, Digit, Lit 45, Digit, Digit]"

definition time_pattern :: "pat list" where
  "time_pattern = [Digit, Digit, Lit 58, Digit, Digit]"

text \<open>
  \<open>datetime.date\<close>: the constructor raises \<open>ValueError\<close> outside the proleptic Gregorian
  calendar of the years 1 to 9999, dates compare by year, month, day, and \<open>isoformat\<close>
  prints \<open>%04d-%02d-%02d\<close>.
\<close>

record pydate =
  year :: int
  month :: int
  day :: int

definition is_leap :: "int \<Rightarrow> bool" where
  "is_leap y = (y mod 4 = 0 \<and> (y mod 100 \<noteq> 0 \<or> y mod 400 = 0))"

definition days_in_month :: "int \<Rightarrow> int \<Rightarrow> int" where
  "days_in_month y m =
     (if m = 2 then (if is_leap y then 29 else 28)
      else if m = 4 \<or> m = 6 \<or> m = 9 \<or> m = 11 then 30
      else 31)"

definition mk_date :: "int \<Rightarrow> int \<Rightarrow> int \<Rightarrow> pydate option" where
  "mk_date y m d =
     (if 1 \<le> y \<and> y \<le> 9999 \<and> 1 \<le> m \<and> m \<le> 12 \<and> 1 \<le> d \<and> d \<le> days_in_month y m
      then Some \<lparr>year = y, month = m, day = d\<rparr>
      else None)"

definition date_less :: "pydate \<Rightarrow> pydate \<Rightarrow> bool" where
  "date_less a b =
     (year a < year b \<or> (year a = year b \<and> (month a < month b \<or>
        (month a = month b \<and> day a < day b))))"

fun decimal :: "nat \<Rightarrow> str" where
  "decimal n = (if n < 10 then [48 + n] else decimal (n div 10) @ [48 + n mod 10])"

declare decimal.simps [simp del]

definition zero_pad :: "nat \<Rightarrow> str \<Rightarrow> str" where
  "zero_pad w s = replicate (w - length s) 48 @ s"

definition isoformat :: "pydate \<Rightarrow> str" where
  "isoformat d =
     zero_pad 4 (decimal (nat (year d))) @ [45] @ zero_pad 2 (decimal (nat (month d)))
       @ [45] @ zero_pad 2 (decimal (nat (day d)))"

definition MIN_BOOKING_DATE :: pydate where
  "MIN_BOOKING_DATE = \<lparr>year = 2025, month = 9, day = 2\<rparr>"

text \<open>\<open>AmenityBooking._validate_and_normalize_date\<close>.\<close>

definition validate_and_normalize_date :: "str \<Rightarrow> value_error + str" where
  "validate_and_normalize_date date_str =
     (if \<not> fullmatch date_pattern date_str then Inl Date_format
      else (case split_on 45 date_str of
              [year_str, month_str, day_str] \<Rightarrow>
                (case py_int year_str of
                   None \<Rightarrow> Inl Int_literal_error
                 | Some y \<Rightarrow>
                     (case py_int month_str of
                        None \<Rightarrow> Inl Int_literal_error
                      | Some m \<Rightarrow>
                          (case py_int day_str of
                             None \<Rightarrow> Inl Int_literal_error
                           | Some d \<Rightarrow>
                               (case mk_date y m d of
                                  None \<Rightarrow> Inl Invalid_date_value
                                | Some candidate \<Rightarrow>
                                    if date_less candidate MIN_BOOKING_DATE
                                    then Inl Date_too_early
                                    else Inr (isoformat candidate)))))
            | _ \<Rightarrow> Inl Unpack_error))"

text \<open>
  \<open>AmenityBooking._validate_time\<close>. After the two range checks \<open>dtime(hour, minute)\<close>
  cannot raise, so the call leaves no trace here.
\<close>

definition validate_time :: "str \<Rightarrow> str \<Rightarrow> value_error + str" where
  "validate_time time_str field_name =
     (if \<not> fullmatch time_pattern time_str then Inl (Time_format field_name)
      else (case split_on 58 time_str of
              [hh_str, mm_str] \<Rightarrow>
                (case py_int hh_str of
                   None \<Rightarrow> Inl Int_literal_error
                 | Some hour \<Rightarrow>
                     (case py_int mm_str of
                        None \<Rightarrow> Inl Int_literal_error
                      | Some minute \<Rightarrow>
                          if \<not> (0 \<le> hour \<and> hour \<le> 23) then Inl (Hour_range field_name)
                          else if \<not> (0 \<le> minute \<and> minute \<le> 59)
                          then Inl (Minute_range field_name)
                          else Inr time_str))
            | _ \<Rightarrow> Inl Unpack_error))"

section \<open>The booking constructors\<close>

text \<open>
  \<open>st_h, st_m = map(int, s.split(":"))\<close>: the unpacking draws the pieces through
  \<open>int\<close> one at a time, two for the names and a third, when there is one, to find out
  that there are too many.
\<close>

definition hour_minute :: "str \<Rightarrow> value_error + (int \<times> int)" where
  "hour_minute s =
     (case split_on 58 s of
        [] \<Rightarrow> Inl Unpack_error
      | [a] \<Rightarrow> (case py_int a of None \<Rightarrow> Inl Int_literal_error | Some h \<Rightarrow> Inl Unpack_error)
      | a # b # rest \<Rightarrow>
          (case py_int a of
             None \<Rightarrow> Inl Int_literal_error
           | Some h \<Rightarrow>
               (case py_int b of
                  None \<Rightarrow> Inl Int_literal_error
                | Some m \<Rightarrow>
                    (case rest of
                       [] \<Rightarrow> Inr (h, m)
                     | c # cs \<Rightarrow>
                         (case py_int c of
                            None \<Rightarrow> Inl Int_literal_error
                          | Some x \<Rightarrow> Inl Unpack_error)))))"

text \<open>
  \<open>AmenityBooking.__init__\<close> of the SQLite variant (\<open>CCT211.py\<close>). A raised
  \<open>ValueError\<close> leaves no object behind: the result is the error alone. The two
  \<open>dtime\<close> values compare by hour, then minute.
\<close>

definition AmenityBooking ::
  "int \<Rightarrow> str \<Rightarrow> str \<Rightarrow> str \<Rightarrow> str \<Rightarrow> str \<Rightarrow> str \<Rightarrow> str \<Rightarrow> value_error + booking" where
  "AmenityBooking bid un fac date_str st et stat creator =
     (case validate_and_normalize_date date_str of
        Inl e \<Rightarrow> Inl e
      | Inr d \<Rightarrow>
          (case validate_time st (ascii ''start_time'') of
             Inl e \<Rightarrow> Inl e
           | Inr start \<Rightarrow>
               (case validate_time et (ascii ''end_time'') of
                  Inl e \<Rightarrow> Inl e
                | Inr end \<Rightarrow>
                    (case hour_minute start of
                       Inl e \<Rightarrow> Inl e
                     | Inr (st_h, st_m) \<Rightarrow>
                         (case hour_minute end of
                            Inl e \<Rightarrow> Inl e
                          | Inr (et_h, et_m) \<Rightarrow>
                              if et_h < st_h \<or> (st_h = et_h \<and> et_m \<le> st_m)
                              then Inl Start_not_earlier
                              else Inr \<lparr>booking_id = bid, unit = un, facility_type = fac,
                                        date = d, start_time = start, end_time = end,
                                        status = stat, created_by = creator\<rparr>)))))"

text \<open>
  \<open>AmenityBooking.__init__\<close> of the JSON variant (\<open>CCT211_Project2.py\<close>) stores its
  arguments as they come.
\<close>

definition AmenityBooking_Project2 ::
  "int \<Rightarrow> str \<Rightarrow> str \<Rightarrow> str \<Rightarrow> str \<Rightarrow> str \<Rightarrow> str \<Rightarrow> str \<Rightarrow> booking" where
  "AmenityBooking_Project2 bid un fac date_str st et stat creator =
     \<lparr>booking_id = bid, unit = un, facility_type = fac, date = date_str, start_time = st,
      end_time = et, status = stat, created_by = creator\<rparr>"

section \<open>Users, the record store and the amenity window\<close>

record user =
  username :: str
  role :: str
  user_unit :: str

definition is_admin :: "user \<Rightarrow> bool" where
  "is_admin u = (role u = ascii ''admin'')"

text \<open>
  \<open>DataStore.next_id\<close> for the key \<open>amenity_bookings\<close>. The SQLite variant asks for
  \<open>MAX(id)\<close>, which is \<open>NULL\<close> on an empty table and then counts as 0; the JSON variant
  returns 1 on an empty list and otherwise the \<open>max\<close> of the ids plus one.
\<close>

fun max_id :: "booking list \<Rightarrow> int option" where
  "max_id [] = None"
| "max_id (b # bs) = (case max_id bs of None \<Rightarrow> Some (booking_id b)
                       | Some m \<Rightarrow> Some (max (booking_id b) m))"

definition next_id :: "booking list \<Rightarrow> int" where
  "next_id rows = (case max_id rows of None \<Rightarrow> 0 | Some m \<Rightarrow> m) + 1"

fun next_id_Project2 :: "booking list \<Rightarrow> int" where
  "next_id_Project2 [] = 1"
| "next_id_Project2 (item # items) = fold max (map booking_id items) (booking_id item) + 1"

text \<open>
  The window keeps \<open>self.bookings\<close> in memory and writes the whole list to the store
  through \<open>save_and_refresh\<close>. \<open>store_rows\<close> is what the store holds and \<open>commits\<close>
  counts the calls of \<open>store.save()\<close>. The write is that of the JSON store, which takes
  any list. The table of the SQLite store has the id as its primary key, a 64-bit integer:
  there the insertion raises on a list with a repeated id or with an id beyond that range,
  after \<open>self.bookings\<close> has changed, and this failure is not part of the model.
\<close>

record amenity_window =
  bookings :: "booking list"
  store_rows :: "booking list"
  commits :: nat
  user :: user

definition save_and_refresh :: "amenity_window \<Rightarrow> amenity_window" where
  "save_and_refresh w = w\<lparr>store_rows := bookings w, commits := commits w + 1\<rparr>"

text \<open>
  The edit branch of \<open>on_booking_saved\<close>: the first booking with the id is replaced, then
  the loop breaks.
\<close>

fun replace_first :: "booking \<Rightarrow> booking list \<Rightarrow> booking list" where
  "replace_first booking [] = []"
| "replace_first booking (b # bs) =
     (if booking_id b = booking_id booking then booking # bs
      else b # replace_first booking bs)"

text \<open>
  \<open>AmenityWindow.on_booking_saved\<close> (the same in both variants). \<open>False\<close> is the result
  that follows the ``Conflict'' error dialog and keeps the form open.
\<close>

definition on_booking_saved :: "booking \<Rightarrow> bool \<Rightarrow> amenity_window \<Rightarrow> bool \<times> amenity_window" where
  "on_booking_saved booking is_new w =
     (if has_conflict booking (bookings w) then (False, w)
      else (True, save_and_refresh
              (w\<lparr>bookings := (if is_new then bookings w @ [booking]
                               else replace_first booking (bookings w))\<rparr>)))"

text \<open>
  The list box shows one line per booking, so a selection is an index into
  \<open>self.bookings\<close>, or nothing. The selected booking is an object of the list; it is
  returned with its place in the list, which stands for the reference.
\<close>

definition get_selected_booking ::
  "nat option \<Rightarrow> amenity_window \<Rightarrow> (nat \<times> booking) option" where
  "get_selected_booking sel w =
     (case sel of
        None \<Rightarrow> None
      | Some i \<Rightarrow> if i < length (bookings w) then Some (i, bookings w ! i) else None)"

definition can_modify :: "amenity_window \<Rightarrow> booking \<Rightarrow> bool" where
  "can_modify w b = (if is_admin (user w) then True else created_by b = username (user w))"

datatype outcome =
    Select_warning
  | Permission_error
  | Already_cancelled
  | Declined
  | Saved

text \<open>
  \<open>cancel_booking\<close> (the same in both variants); \<open>confirm\<close> is the answer to the
  yes/no dialog. Setting the status of the selected object changes the list at its place.
\<close>

definition cancel_booking :: "nat option \<Rightarrow> bool \<Rightarrow> amenity_window \<Rightarrow> outcome \<times> amenity_window" where
  "cancel_booking sel confirm w =
     (case get_selected_booking sel w of
        None \<Rightarrow> (Select_warning, w)
      | Some (i, b) \<Rightarrow>
          if \<not> can_modify w b then (Permission_error, w)
          else if status b = ascii ''Cancelled'' then (Already_cancelled, w)
          else if confirm then
            (Saved, save_and_refresh
               (w\<lparr>bookings := (bookings w)[i := b\<lparr>status := ascii ''Cancelled''\<rparr>]\<rparr>))
          else (Declined, w))"

text \<open>The list comprehension \<open>[bk for bk in self.bookings if bk.id != b.id]\<close>.\<close>

fun keep_other_ids :: "int \<Rightarrow> booking list \<Rightarrow> booking list" where
  "keep_other_ids i [] = []"
| "keep_other_ids i (bk # bks) =
     (if booking_id bk \<noteq> i then bk # keep_other_ids i bks else keep_other_ids i bks)"

text \<open>
  \<open>delete_booking\<close>: in the SQLite variant a resident may delete the bookings of the own
  unit, in the JSON variant only an administrator deletes.
\<close>

definition delete_booking :: "nat option \<Rightarrow> bool \<Rightarrow> amenity_window \<Rightarrow> outcome \<times> amenity_window" where
  "delete_booking sel confirm w =
     (case get_selected_booking sel w of
        None \<Rightarrow> (Select_warning, w)
      | Some (i, b) \<Rightarrow>
          if \<not> is_admin (user w) \<and> unit b \<noteq> user_unit (user w) then (Permission_error, w)
          else if confirm then
            (Saved, save_and_refresh
               (w\<lparr>bookings := keep_other_ids (booking_id b) (bookings w)\<rparr>))
          else (Declined, w))"

definition delete_booking_Project2 ::
  "nat option \<Rightarrow> bool \<Rightarrow> amenity_window \<Rightarrow> outcome \<times> amenity_window" where
  "delete_booking_Project2 sel confirm w =
     (case get_selected_booking sel w of
        None \<Rightarrow> (Select_warning, w)
      | Some (i, b) \<Rightarrow>
          if \<not> is_admin (user w) then (Permission_error, w)
          else if confirm then
            (Saved, save_and_refresh
               (w\<lparr>bookings := keep_other_ids (booking_id b) (bookings w)\<rparr>))
          else (Declined, w))"

section \<open>The booking form of the SQLite variant\<close>

text \<open>
  \<open>str.strip()\<close> drops the characters for which \<open>str.isspace\<close> holds at both ends.
\<close>

definition is_space :: "nat \<Rightarrow> bool" where
  "is_space c =
     (c \<in> set [9, 10, 11, 12, 13, 28, 29, 30, 31, 32, 133, 160, 5760, 8192, 8193, 8194,
               8195, 8196, 8197, 8198, 8199, 8200, 8201, 8202, 8232, 8233, 8239, 8287,
               12288])"

definition strip :: "str \<Rightarrow> str" where
  "strip s = rev (dropWhile is_space (rev (dropWhile is_space s)))"

record form_entries =
  unit_entry :: str
  fac_var :: str
  date_entry :: str
  start_entry :: str
  end_entry :: str
  status_var :: str

datatype form_result =
    Fields_required
  | Invalid_time
  | Invalid_booking value_error
  | Conflict_kept_open
  | Closed

text \<open>
  \<open>BookingForm.save\<close> of \<open>CCT211.py\<close>. \<open>editing\<close> is \<open>self.booking\<close>: the booking under
  edit, or \<open>None\<close> for a new one.
\<close>

definition form_save ::
  "form_entries \<Rightarrow> booking option \<Rightarrow> amenity_window \<Rightarrow> form_result \<times> amenity_window" where
  "form_save f editing w =
     (let un = strip (unit_entry f);
          facility = strip (fac_var f);
          date_str = strip (date_entry f);
          start = strip (start_entry f);
          end = strip (end_entry f);
          stat = strip (status_var f)
      in if un = [] \<or> facility = [] \<or> date_str = [] \<or> start = [] \<or> end = []
         then (Fields_required, w)
         else
           (let start_m = parse_time_to_minutes start;
                end_m = parse_time_to_minutes end
            in if start_m < 0 \<or> end_m < 0 \<or> end_m \<le> start_m then (Invalid_time, w)
               else
                 (let bid = (case editing of Some b \<Rightarrow> booking_id b
                             | None \<Rightarrow> next_id (store_rows w));
                      creator = (case editing of Some b \<Rightarrow> created_by b
                                 | None \<Rightarrow> username (user w))
                  in case AmenityBooking bid un facility date_str start end stat creator of
                       Inl e \<Rightarrow> (Invalid_booking e, w)
                     | Inr booking \<Rightarrow>
                         (case on_booking_saved booking (editing = None) w of
                            (ok, w') \<Rightarrow> (if ok then Closed else Conflict_kept_open, w')))))"

text \<open>Bookings for the examples: unit 101, the meeting room, 10 September 2025.\<close>

definition slot :: "int \<Rightarrow> string \<Rightarrow> string \<Rightarrow> string \<Rightarrow> booking" where
  "slot i s e st =
     \<lparr>booking_id = i, unit = ascii ''101'', facility_type = ascii ''Meeting Room'',
      date = ascii ''2025-09-10'', start_time = ascii s, end_time = ascii e,
      status = ascii st, created_by = []\<rparr>"

text \<open>
  A resident and an administrator, a window whose store holds what the window shows, and
  the entries of a form for unit 101 and the meeting room on 10 September 2025.
\<close>

definition resident :: user where
  "resident = \<lparr>username = ascii ''amy'', role = ascii ''resident'', user_unit = ascii ''101''\<rparr>"

definition admin :: user where
  "admin = \<lparr>username = ascii ''staff'', role = ascii ''admin'', user_unit = []\<rparr>"

definition window_of :: "user \<Rightarrow> booking list \<Rightarrow> amenity_window" where
  "window_of u bs = \<lparr>bookings = bs, store_rows = bs, commits = 0, user = u\<rparr>"

definition entries :: "string \<Rightarrow> string \<Rightarrow> form_entries" where
  "entries s e =
     \<lparr>unit_entry = ascii ''101'', fac_var = ascii ''Meeting Room'',
      date_entry = ascii ''2025-09-10'', start_entry = ascii s, end_entry = ascii e,
      status_var = ascii ''Booked''\<rparr>"

section \<open>Evaluation on concrete inputs\<close>

lemmas eval_defs = slot_def ascii_def has_conflict_def parse_time_to_minutes_def py_int_def
  int_strip_def int_space_def decimal_value_def decimal_zeros_def Let_def

section \<open>The conflict check\<close>

lemma conflict_loop_iff:
  "conflict_loop c ns ne bs \<longleftrightarrow>
     (\<exists>b \<in> set bs. booking_id b \<noteq> booking_id c \<and> facility_type b = facility_type c \<and>
        date b = date c \<and> parse_time_to_minutes (start_time b) < ne \<and>
        ns < parse_time_to_minutes (end_time b))"
  by (induction bs) (auto simp: Let_def)

lemma conflict_loop_status:
  "conflict_loop c ns ne (map (\<lambda>b. b\<lparr>status := f b\<rparr>) bs) = conflict_loop c ns ne bs"
  by (induction bs) (simp_all add: Let_def)

text \<open>
  C1. For a candidate whose two times convert to non-negative minutes, \<open>has_conflict\<close> is
  true exactly when some stored booking with another id has the same facility and date
  and \<open>existingStart < candidateEnd\<close> and \<open>candidateStart < existingEnd\<close>. Intervals that
  touch (09:00 to 10:00 against 10:00 to 11:00) do not conflict, 09:00 to 10:30 against
  10:00 to 11:00 do.
\<close>

theorem has_conflict_iff_overlap:
  "(\<forall>c bs. 0 \<le> parse_time_to_minutes (start_time c)
        \<and> 0 \<le> parse_time_to_minutes (end_time c) \<longrightarrow>
      (has_conflict c bs \<longleftrightarrow>
        (\<exists>b \<in> set bs. booking_id b \<noteq> booking_id c \<and> facility_type b = facility_type c \<and>
           date b = date c \<and>
           parse_time_to_minutes (start_time b) < parse_time_to_minutes (end_time c) \<and>
           parse_time_to_minutes (start_time c) < parse_time_to_minutes (end_time b))))
   \<and> \<not> has_conflict (slot 2 ''10:00'' ''11:00'' ''Booked'') [slot 1 ''09:00'' ''10:00'' ''Booked'']
   \<and> \<not> has_conflict (slot 1 ''09:00'' ''10:00'' ''Booked'') [slot 2 ''10:00'' ''11:00'' ''Booked'']
   \<and> has_conflict (slot 2 ''10:00'' ''11:00'' ''Booked'') [slot 1 ''09:00'' ''10:30'' ''Booked'']
   \<and> has_conflict (slot 1 ''09:00'' ''10:30'' ''Booked'') [slot 2 ''10:00'' ''11:00'' ''Booked'']"
proof (intro conjI allI impI)
  fix c :: booking and bs :: "booking list"
  assume "0 \<le> parse_time_to_minutes (start_time c) \<and> 0 \<le> parse_time_to_minutes (end_time c)"
  then show "has_conflict c bs \<longleftrightarrow>
        (\<exists>b \<in> set bs. booking_id b \<noteq> booking_id c \<and> facility_type b = facility_type c \<and>
           date b = date c \<and>
           parse_time_to_minutes (start_time b) < parse_time_to_minutes (end_time c) \<and>
           parse_time_to_minutes (start_time c) < parse_time_to_minutes (end_time b))"
    by (simp add: has_conflict_def Let_def conflict_loop_iff)
next
  show "\<not> has_conflict (slot 2 ''10:00'' ''11:00'' ''Booked'') [slot 1 ''09:00'' ''10:00'' ''Booked'']"
    by (simp add: eval_defs)
next
  show "\<not> has_conflict (slot 1 ''09:00'' ''10:00'' ''Booked'') [slot 2 ''10:00'' ''11:00'' ''Booked'']"
    by (simp add: eval_defs)
next
  show "has_conflict (slot 2 ''10:00'' ''11:00'' ''Booked'') [slot 1 ''09:00'' ''10:30'' ''Booked'']"
    by (simp add: eval_defs)
next
  show "has_conflict (slot 1 ''09:00'' ''10:30'' ''Booked'') [slot 2 ''10:00'' ''11:00'' ''Booked'']"
    by (simp add: eval_defs)
qed

theorem has_conflict_iff_overlap_witness:
  "0 \<le> parse_time_to_minutes (start_time (slot 2 ''10:00'' ''11:00'' ''Booked''))
   \<and> 0 \<le> parse_time_to_minutes (end_time (slot 2 ''10:00'' ''11:00'' ''Booked''))
   \<and> has_conflict (slot 2 ''10:00'' ''11:00'' ''Booked'') [slot 1 ''09:00'' ''10:30'' ''Booked'']
   \<and> (\<exists>b \<in> set [slot 1 ''09:00'' ''10:30'' ''Booked''].
         booking_id b \<noteq> booking_id (slot 2 ''10:00'' ''11:00'' ''Booked'')
         \<and> facility_type b = facility_type (slot 2 ''10:00'' ''11:00'' ''Booked'')
         \<and> date b = date (slot 2 ''10:00'' ''11:00'' ''Booked'')
         \<and> parse_time_to_minutes (start_time b)
             < parse_time_to_minutes (end_time (slot 2 ''10:00'' ''11:00'' ''Booked''))
         \<and> parse_time_to_minutes (start_time (slot 2 ''10:00'' ''11:00'' ''Booked''))
             < parse_time_to_minutes (end_time b))"
proof -
  let ?c = "slot 2 ''10:00'' ''11:00'' ''Booked''"
  let ?bs = "[slot 1 ''09:00'' ''10:30'' ''Booked'']"
  have h: "0 \<le> parse_time_to_minutes (start_time ?c)
      \<and> 0 \<le> parse_time_to_minutes (end_time ?c)"
    by (simp add: eval_defs)
  have c: "has_conflict ?c ?bs"
    by (simp add: eval_defs)
  have "\<forall>c bs. 0 \<le> parse_time_to_minutes (start_time c)
        \<and> 0 \<le> parse_time_to_minutes (end_time c) \<longrightarrow>
      (has_conflict c bs \<longleftrightarrow>
        (\<exists>b \<in> set bs. booking_id b \<noteq> booking_id c \<and> facility_type b = facility_type c \<and>
           date b = date c \<and>
           parse_time_to_minutes (start_time b) < parse_time_to_minutes (end_time c) \<and>
           parse_time_to_minutes (start_time c) < parse_time_to_minutes (end_time b)))"
    using has_conflict_iff_overlap by (rule conjunct1)
  then have "has_conflict ?c ?bs \<longleftrightarrow>
        (\<exists>b \<in> set ?bs. booking_id b \<noteq> booking_id ?c \<and> facility_type b = facility_type ?c \<and>
           date b = date ?c \<and>
           parse_time_to_minutes (start_time b) < parse_time_to_minutes (end_time ?c) \<and>
           parse_time_to_minutes (start_time ?c) < parse_time_to_minutes (end_time b))"
    using h by (elim allE impE) assumption+
  with c have "\<exists>b \<in> set ?bs. booking_id b \<noteq> booking_id ?c \<and> facility_type b = facility_type ?c \<and>
           date b = date ?c \<and>
           parse_time_to_minutes (start_time b) < parse_time_to_minutes (end_time ?c) \<and>
           parse_time_to_minutes (start_time ?c) < parse_time_to_minutes (end_time b)"
    by (rule iffD1 [rotated])
  with h c show ?thesis by (intro conjI) (erule conjunct1 conjunct2 | assumption)+
qed

text \<open>
  C10. The conflict relation is symmetric: for two bookings with distinct ids whose four
  times convert to non-negative minutes, \<open>has_conflict a [b]\<close> equals \<open>has_conflict b [a]\<close>.
\<close>

theorem has_conflict_symmetric:
  assumes "booking_id a \<noteq> booking_id b"
    and "0 \<le> parse_time_to_minutes (start_time a)" and "0 \<le> parse_time_to_minutes (end_time a)"
    and "0 \<le> parse_time_to_minutes (start_time b)" and "0 \<le> parse_time_to_minutes (end_time b)"
  shows "has_conflict a [b] = has_conflict b [a]"
  using assms by (auto simp: has_conflict_def Let_def)

theorem has_conflict_symmetric_witness:
  "has_conflict (slot 1 ''09:00'' ''10:30'' ''Booked'') [slot 2 ''10:00'' ''11:00'' ''Booked'']
     = has_conflict (slot 2 ''10:00'' ''11:00'' ''Booked'') [slot 1 ''09:00'' ''10:30'' ''Booked'']"
proof -
  let ?a = "slot 1 ''09:00'' ''10:30'' ''Booked''"
  let ?b = "slot 2 ''10:00'' ''11:00'' ''Booked''"
  have "booking_id ?a \<noteq> booking_id ?b" by (simp add: eval_defs)
  moreover have "0 \<le> parse_time_to_minutes (start_time ?a)" by (simp add: eval_defs)
  moreover have "0 \<le> parse_time_to_minutes (end_time ?a)" by (simp add: eval_defs)
  moreover have "0 \<le> parse_time_to_minutes (start_time ?b)" by (simp add: eval_defs)
  moreover have "0 \<le> parse_time_to_minutes (end_time ?b)" by (simp add: eval_defs)
  ultimately show ?thesis by (rule has_conflict_symmetric)
qed

lemmas window_defs = window_of_def resident_def admin_def is_admin_def on_booking_saved_def
  save_and_refresh_def get_selected_booking_def can_modify_def

lemmas form_defs = form_save_def entries_def strip_def is_space_def AmenityBooking_def
  validate_and_normalize_date_def validate_time_def hour_minute_def date_pattern_def
  time_pattern_def is_digit_def mk_date_def days_in_month_def is_leap_def date_less_def
  MIN_BOOKING_DATE_def isoformat_def zero_pad_def decimal.simps next_id_def

section \<open>Rejection on conflict\<close>

text \<open>
  C2. The conflict check does not look at the status field: rewriting the status of the
  stored bookings in any way leaves its answer the same. So a stored booking that is
  Cancelled, on the same facility and date and with another id, whose interval overlaps
  a new booking's, makes \<open>has_conflict\<close> true, and saving the new booking is refused
  with the window left as it was.
\<close>

theorem cancelled_booking_still_conflicts:
  "(\<forall>nb bs f. has_conflict nb (map (\<lambda>b. b\<lparr>status := f b\<rparr>) bs) = has_conflict nb bs)
   \<and> (\<forall>nb w b.
        b \<in> set (bookings w) \<and> status b = ascii ''Cancelled''
        \<and> booking_id b \<noteq> booking_id nb
        \<and> facility_type b = facility_type nb \<and> date b = date nb
        \<and> 0 \<le> parse_time_to_minutes (start_time nb)
        \<and> 0 \<le> parse_time_to_minutes (end_time nb)
        \<and> parse_time_to_minutes (start_time b) < parse_time_to_minutes (end_time nb)
        \<and> parse_time_to_minutes (start_time nb) < parse_time_to_minutes (end_time b)
        \<longrightarrow> has_conflict nb (bookings w) \<and> on_booking_saved nb True w = (False, w))"
proof (intro conjI allI impI)
  fix nb :: booking and bs :: "booking list" and f :: "booking \<Rightarrow> str"
  show "has_conflict nb (map (\<lambda>b. b\<lparr>status := f b\<rparr>) bs) = has_conflict nb bs"
    by (simp add: has_conflict_def Let_def conflict_loop_status)
next
  fix nb :: booking and w :: amenity_window and b :: booking
  assume h: "b \<in> set (bookings w) \<and> status b = ascii ''Cancelled''
        \<and> booking_id b \<noteq> booking_id nb
        \<and> facility_type b = facility_type nb \<and> date b = date nb
        \<and> 0 \<le> parse_time_to_minutes (start_time nb)
        \<and> 0 \<le> parse_time_to_minutes (end_time nb)
        \<and> parse_time_to_minutes (start_time b) < parse_time_to_minutes (end_time nb)
        \<and> parse_time_to_minutes (start_time nb) < parse_time_to_minutes (end_time b)"
  then show c: "has_conflict nb (bookings w)"
    unfolding has_conflict_def Let_def conflict_loop_iff by auto
  then show "on_booking_saved nb True w = (False, w)"
    by (simp add: on_booking_saved_def)
qed

theorem cancelled_booking_still_conflicts_witness:
  "slot 1 ''10:00'' ''11:00'' ''Cancelled''
     \<in> set (bookings (window_of resident [slot 1 ''10:00'' ''11:00'' ''Cancelled'']))
   \<and> status (slot 1 ''10:00'' ''11:00'' ''Cancelled'') = ascii ''Cancelled''
   \<and> has_conflict (slot 2 ''10:00'' ''11:00'' ''Booked'')
        (bookings (window_of resident [slot 1 ''10:00'' ''11:00'' ''Cancelled'']))
   \<and> on_booking_saved (slot 2 ''10:00'' ''11:00'' ''Booked'') True
        (window_of resident [slot 1 ''10:00'' ''11:00'' ''Cancelled''])
       = (False, window_of resident [slot 1 ''10:00'' ''11:00'' ''Cancelled''])"
proof -
  let ?b = "slot 1 ''10:00'' ''11:00'' ''Cancelled''"
  let ?nb = "slot 2 ''10:00'' ''11:00'' ''Booked''"
  let ?w = "window_of resident [?b]"
  have h1: "?b \<in> set (bookings ?w) \<and> status ?b = ascii ''Cancelled''"
    by (simp add: window_of_def slot_def)
  have h: "?b \<in> set (bookings ?w) \<and> status ?b = ascii ''Cancelled''
        \<and> booking_id ?b \<noteq> booking_id ?nb
        \<and> facility_type ?b = facility_type ?nb \<and> date ?b = date ?nb
        \<and> 0 \<le> parse_time_to_minutes (start_time ?nb)
        \<and> 0 \<le> parse_time_to_minutes (end_time ?nb)
        \<and> parse_time_to_minutes (start_time ?b) < parse_time_to_minutes (end_time ?nb)
        \<and> parse_time_to_minutes (start_time ?nb) < parse_time_to_minutes (end_time ?b)"
    by (simp add: eval_defs window_of_def)
  have "\<forall>nb w b.
        b \<in> set (bookings w) \<and> status b = ascii ''Cancelled''
        \<and> booking_id b \<noteq> booking_id nb
        \<and> facility_type b = facility_type nb \<and> date b = date nb
        \<and> 0 \<le> parse_time_to_minutes (start_time nb)
        \<and> 0 \<le> parse_time_to_minutes (end_time nb)
        \<and> parse_time_to_minutes (start_time b) < parse_time_to_minutes (end_time nb)
        \<and> parse_time_to_minutes (start_time nb) < parse_time_to_minutes (end_time b)
        \<longrightarrow> has_conflict nb (bookings w) \<and> on_booking_saved nb True w = (False, w)"
    using cancelled_booking_still_conflicts by (rule conjunct2)
  then have "has_conflict ?nb (bookings ?w) \<and> on_booking_saved ?nb True ?w = (False, ?w)"
    using h by (elim allE impE) assumption+
  with h1 show ?thesis by (intro conjI) (erule conjunct1 conjunct2 | assumption)+
qed

text \<open>
  C3. When the conflict check reports a conflict, \<open>on_booking_saved\<close> answers \<open>False\<close> for
  a new booking and for an edit alike and returns the window as it was: the list of
  bookings, the store and the number of commits are the same. The same holds one level
  up: a form whose save ends with the conflict dialog leaves the window untouched.
\<close>

theorem conflict_leaves_collection_unchanged:
  "(\<forall>booking is_new w. has_conflict booking (bookings w) \<longrightarrow>
        on_booking_saved booking is_new w = (False, w))
   \<and> (\<forall>f editing w w'. form_save f editing w = (Conflict_kept_open, w') \<longrightarrow> w' = w)"
proof (intro conjI allI impI)
  fix booking :: booking and is_new :: bool and w :: amenity_window
  assume "has_conflict booking (bookings w)"
  then show "on_booking_saved booking is_new w = (False, w)"
    by (simp add: on_booking_saved_def)
next
  fix f :: form_entries and editing :: "booking option" and w w' :: amenity_window
  assume "form_save f editing w = (Conflict_kept_open, w')"
  then show "w' = w"
    by (auto simp: form_save_def Let_def on_booking_saved_def
        split: if_splits sum.splits prod.splits)
qed

theorem conflict_leaves_collection_unchanged_witness:
  "has_conflict (slot 2 ''10:30'' ''11:30'' ''Booked'')
     (bookings (window_of resident [slot 1 ''10:00'' ''11:00'' ''Booked'']))
   \<and> on_booking_saved (slot 2 ''10:30'' ''11:30'' ''Booked'') False
        (window_of resident [slot 1 ''10:00'' ''11:00'' ''Booked''])
       = (False, window_of resident [slot 1 ''10:00'' ''11:00'' ''Booked''])
   \<and> form_save (entries ''10:30'' ''11:30'') None
        (window_of resident [slot 1 ''10:00'' ''11:00'' ''Booked''])
       = (Conflict_kept_open, window_of resident [slot 1 ''10:00'' ''11:00'' ''Booked''])"
proof -
  let ?w = "window_of resident [slot 1 ''10:00'' ''11:00'' ''Booked'']"
  let ?nb = "slot 2 ''10:30'' ''11:30'' ''Booked''"
  have h: "has_conflict ?nb (bookings ?w)"
    by (simp add: eval_defs window_of_def)
  have "\<forall>booking is_new w. has_conflict booking (bookings w) \<longrightarrow>
        on_booking_saved booking is_new w = (False, w)"
    using conflict_leaves_collection_unchanged by (rule conjunct1)
  then have a: "on_booking_saved ?nb False ?w = (False, ?w)"
    using h by (elim allE impE) assumption+
  have k: "fst (form_save (entries ''10:30'' ''11:30'') None ?w) = Conflict_kept_open"
    by (simp add: eval_defs window_defs form_defs)
  then obtain w' where w': "form_save (entries ''10:30'' ''11:30'') None ?w = (Conflict_kept_open, w')"
    by (cases "form_save (entries ''10:30'' ''11:30'') None ?w") simp
  have "\<forall>f editing w w'. form_save f editing w = (Conflict_kept_open, w') \<longrightarrow> w' = w"
    using conflict_leaves_collection_unchanged by (rule conjunct2)
  then have "w' = ?w"
    using w' by (elim allE impE) assumption+
  with w' have b: "form_save (entries ''10:30'' ''11:30'') None ?w = (Conflict_kept_open, ?w)"
    by simp
  from h a b show ?thesis by (intro conjI)
qed

section \<open>Identifiers and the operations on the collection\<close>

lemma keep_other_ids_filter: "keep_other_ids i bs = filter (\<lambda>bk. booking_id bk \<noteq> i) bs"
  by (induction bs) simp_all

lemma max_id_None: "max_id rows = None \<longleftrightarrow> rows = []"
  by (induction rows) (auto split: option.splits)

lemma max_id_Some: "max_id rows = Some m \<Longrightarrow> m = Max (booking_id ` set rows)"
proof (induction rows arbitrary: m)
  case Nil
  then show ?case by simp
next
  case (Cons b rows)
  show ?case
  proof (cases "max_id rows")
    case None
    then have "rows = []" by (simp add: max_id_None)
    with Cons.prems show ?thesis by simp
  next
    case (Some k)
    then have k: "k = Max (booking_id ` set rows)" by (rule Cons.IH)
    from Some have ne: "rows \<noteq> []" by auto
    from Cons.prems Some have "m = max (booking_id b) k" by simp
    with k ne show ?thesis by simp
  qed
qed

lemma next_id_eq:
  "next_id rows = (if rows = [] then 1 else Max (booking_id ` set rows) + 1)"
proof (cases "max_id rows")
  case None
  then show ?thesis by (simp add: next_id_def max_id_None)
next
  case (Some m)
  then have "rows \<noteq> []" by auto
  with Some max_id_Some [OF Some] show ?thesis by (simp add: next_id_def)
qed

lemma fold_max_Max: "fold max xs (x::int) = Max (insert x (set xs))"
proof (induction xs arbitrary: x)
  case Nil
  then show ?case by simp
next
  case (Cons y ys)
  have "fold max (y # ys) x = Max (insert (max y x) (set ys))" by (simp add: Cons.IH)
  also have "\<dots> = Max (insert x (set (y # ys)))"
    by (cases "ys = []") (auto simp: max.commute max.left_commute)
  finally show ?case .
qed

lemma next_id_Project2_eq:
  "next_id_Project2 items = (if items = [] then 1 else Max (booking_id ` set items) + 1)"
  by (cases items) (simp_all add: fold_max_Max)

lemma fresh_above_Max:
  assumes "i = (if ids = [] then 1 else Max (set ids) + 1)"
  shows "(i::int) \<notin> set ids"
proof
  assume m: "i \<in> set ids"
  then have "i \<le> Max (set ids)" by simp
  moreover from m have "ids \<noteq> []" by auto
  ultimately show False using assms by simp
qed

lemma next_id_fresh:
  assumes "set (map booking_id rows) = set (map booking_id bs)"
    and "i = next_id rows \<or> i = next_id_Project2 rows"
  shows "i \<notin> set (map booking_id bs)"
proof -
  from assms(2) have "i = (if map booking_id rows = [] then 1
      else Max (set (map booking_id rows)) + 1)"
    by (auto simp: next_id_eq next_id_Project2_eq)
  then have "i \<notin> set (map booking_id rows)" by (rule fresh_above_Max)
  with assms(1) show ?thesis by simp
qed

lemma map_id_replace_first: "map booking_id (replace_first nb bs) = map booking_id bs"
  by (induction bs) simp_all

lemma distinct_keep_other_ids:
  "distinct (map booking_id bs) \<Longrightarrow> distinct (map booking_id (keep_other_ids i bs))"
  by (simp add: keep_other_ids_filter distinct_map_filter)

lemma map_id_status_update:
  "i < length bs \<Longrightarrow> map booking_id (bs[i := (bs ! i)\<lparr>status := s\<rparr>]) = map booking_id bs"
  by (simp add: map_update list_update_same_conv)

lemma AmenityBooking_id:
  "AmenityBooking bid un fac ds st et stat cr = Inr b \<Longrightarrow> booking_id b = bid"
  by (auto simp: AmenityBooking_def split: sum.splits if_splits prod.splits)

lemma on_booking_saved_new_distinct:
  assumes "distinct (map booking_id (bookings w))"
    and "booking_id nb \<notin> set (map booking_id (bookings w))"
    and "on_booking_saved nb True w = (True, w')"
  shows "distinct (map booking_id (bookings w')) \<and> store_rows w' = bookings w'"
  using assms by (auto simp: on_booking_saved_def save_and_refresh_def split: if_splits)

lemma on_booking_saved_edit_distinct:
  assumes "distinct (map booking_id (bookings w))"
    and "on_booking_saved nb False w = (True, w')"
  shows "distinct (map booking_id (bookings w')) \<and> store_rows w' = bookings w'"
  using assms
  by (auto simp: on_booking_saved_def save_and_refresh_def map_id_replace_first
      split: if_splits)

lemma cancel_booking_distinct:
  assumes "distinct (map booking_id (bookings w))"
    and "cancel_booking sel confirm w = (Saved, w')"
  shows "distinct (map booking_id (bookings w')) \<and> store_rows w' = bookings w'"
  using assms
  by (auto simp: cancel_booking_def get_selected_booking_def save_and_refresh_def
      map_id_status_update split: option.splits if_splits)

lemma delete_booking_result:
  assumes "delete_booking (Some k) confirm w = (Saved, w')"
  shows "bookings w' = keep_other_ids (booking_id (bookings w ! k)) (bookings w)
      \<and> store_rows w' = bookings w'"
  using assms
  by (auto simp: delete_booking_def get_selected_booking_def save_and_refresh_def
      split: if_splits)

lemma delete_booking_Project2_result:
  assumes "delete_booking_Project2 (Some k) confirm w = (Saved, w')"
  shows "bookings w' = keep_other_ids (booking_id (bookings w ! k)) (bookings w)
      \<and> store_rows w' = bookings w'"
  using assms
  by (auto simp: delete_booking_Project2_def get_selected_booking_def save_and_refresh_def
      split: if_splits)

lemma delete_booking_distinct:
  assumes "distinct (map booking_id (bookings w))"
    and "delete_booking sel confirm w = (Saved, w')
      \<or> delete_booking_Project2 sel confirm w = (Saved, w')"
  shows "distinct (map booking_id (bookings w')) \<and> store_rows w' = bookings w'"
proof (cases sel)
  case None
  with assms(2) show ?thesis
    by (simp add: delete_booking_def delete_booking_Project2_def get_selected_booking_def)
next
  case (Some k)
  with assms(2) have "bookings w' = keep_other_ids (booking_id (bookings w ! k)) (bookings w)
      \<and> store_rows w' = bookings w'"
    using delete_booking_result delete_booking_Project2_result by blast
  with assms(1) show ?thesis by (simp add: distinct_keep_other_ids)
qed

lemma form_save_Closed:
  assumes "form_save f editing w = (Closed, w')"
  shows "\<exists>nb. booking_id nb = (case editing of Some b \<Rightarrow> booking_id b
                                | None \<Rightarrow> next_id (store_rows w))
            \<and> on_booking_saved nb (editing = None) w = (True, w')"
proof -
  let ?bid = "case editing of Some b \<Rightarrow> booking_id b | None \<Rightarrow> next_id (store_rows w)"
  let ?made = "AmenityBooking ?bid (strip (unit_entry f)) (strip (fac_var f))
      (strip (date_entry f)) (strip (start_entry f)) (strip (end_entry f))
      (strip (status_var f))
      (case editing of Some b \<Rightarrow> created_by b | None \<Rightarrow> username (user w))"
  let ?g1 = "strip (unit_entry f) = [] \<or> strip (fac_var f) = [] \<or> strip (date_entry f) = []
      \<or> strip (start_entry f) = [] \<or> strip (end_entry f) = []"
  let ?g2 = "parse_time_to_minutes (strip (start_entry f)) < 0
      \<or> parse_time_to_minutes (strip (end_entry f)) < 0
      \<or> parse_time_to_minutes (strip (end_entry f)) \<le> parse_time_to_minutes (strip (start_entry f))"
  have unfolded: "form_save f editing w =
      (if ?g1 then (Fields_required, w)
       else if ?g2 then (Invalid_time, w)
       else (case ?made of
               Inl e \<Rightarrow> (Invalid_booking e, w)
             | Inr booking \<Rightarrow>
                 (case on_booking_saved booking (editing = None) w of
                    (ok, w') \<Rightarrow> (if ok then Closed else Conflict_kept_open, w'))))"
    unfolding form_save_def Let_def by (rule refl)
  show ?thesis
  proof (cases ?made)
    case (Inl e)
    with assms unfolded have False
      by (cases ?g1; cases ?g2) simp_all
    then show ?thesis ..
  next
    case (Inr nb)
    then have i: "booking_id nb = ?bid" by (rule AmenityBooking_id)
    obtain ok w2 where o: "on_booking_saved nb (editing = None) w = (ok, w2)"
      by (cases "on_booking_saved nb (editing = None) w")
    with assms unfolded Inr have "ok \<and> w2 = w'"
      by (cases ?g1; cases ?g2; cases ok) simp_all
    with o have "on_booking_saved nb (editing = None) w = (True, w')" by simp
    with i show ?thesis by (intro exI conjI)
  qed
qed

lemma form_save_distinct:
  assumes d: "distinct (map booking_id (bookings w))"
    and s: "set (map booking_id (store_rows w)) = set (map booking_id (bookings w))"
    and f: "form_save f editing w = (Closed, w')"
  shows "distinct (map booking_id (bookings w')) \<and> store_rows w' = bookings w'"
proof -
  from form_save_Closed [OF f] obtain nb where
    i: "booking_id nb = (case editing of Some b \<Rightarrow> booking_id b
                         | None \<Rightarrow> next_id (store_rows w))"
    and o: "on_booking_saved nb (editing = None) w = (True, w')"
    by (elim exE conjE)
  show ?thesis
  proof (cases editing)
    case None
    with i have "booking_id nb = next_id (store_rows w)" by simp
    then have "booking_id nb = next_id (store_rows w)
        \<or> booking_id nb = next_id_Project2 (store_rows w)" ..
    with s have fresh: "booking_id nb \<notin> set (map booking_id (bookings w))"
      by (rule next_id_fresh)
    from o None have "on_booking_saved nb True w = (True, w')" by simp
    with d fresh show ?thesis by (rule on_booking_saved_new_distinct)
  next
    case (Some b)
    with o have "on_booking_saved nb False w = (True, w')" by simp
    with d show ?thesis by (rule on_booking_saved_edit_distinct)
  qed
qed



text \<open>
  C8, as the claim states it, fails when the store does not hold what the window lists.
  Each click on ``Amenities'' opens a window with its own list, read once from the store.
  A window that still lists the bookings 1, 2 and 3 after another window has deleted
  number 3 takes 3 from \<open>next_id\<close> for a new booking, appends it to its list and writes
  both bookings with id 3 to the JSON store.
\<close>

theorem stale_window_repeats_id_counterexample:
  "distinct (map booking_id (bookings
       \<lparr>bookings = [slot 1 ''10:00'' ''11:00'' ''Booked'', slot 2 ''11:00'' ''12:00'' ''Booked'',
                    slot 3 ''12:00'' ''13:00'' ''Booked''],
        store_rows = [slot 1 ''10:00'' ''11:00'' ''Booked'', slot 2 ''11:00'' ''12:00'' ''Booked''],
        commits = 0, user = admin\<rparr>))
   \<and> booking_id (slot 3 ''13:00'' ''14:00'' ''Booked'')
       = next_id_Project2 (store_rows
       \<lparr>bookings = [slot 1 ''10:00'' ''11:00'' ''Booked'', slot 2 ''11:00'' ''12:00'' ''Booked'',
                    slot 3 ''12:00'' ''13:00'' ''Booked''],
        store_rows = [slot 1 ''10:00'' ''11:00'' ''Booked'', slot 2 ''11:00'' ''12:00'' ''Booked''],
        commits = 0, user = admin\<rparr>)
   \<and> on_booking_saved (slot 3 ''13:00'' ''14:00'' ''Booked'') True
       \<lparr>bookings = [slot 1 ''10:00'' ''11:00'' ''Booked'', slot 2 ''11:00'' ''12:00'' ''Booked'',
                    slot 3 ''12:00'' ''13:00'' ''Booked''],
        store_rows = [slot 1 ''10:00'' ''11:00'' ''Booked'', slot 2 ''11:00'' ''12:00'' ''Booked''],
        commits = 0, user = admin\<rparr>
       = (True,
          \<lparr>bookings = [slot 1 ''10:00'' ''11:00'' ''Booked'', slot 2 ''11:00'' ''12:00'' ''Booked'',
                       slot 3 ''12:00'' ''13:00'' ''Booked'', slot 3 ''13:00'' ''14:00'' ''Booked''],
           store_rows = [slot 1 ''10:00'' ''11:00'' ''Booked'', slot 2 ''11:00'' ''12:00'' ''Booked'',
                       slot 3 ''12:00'' ''13:00'' ''Booked'', slot 3 ''13:00'' ''14:00'' ''Booked''],
           commits = 1, user = admin\<rparr>)
   \<and> \<not> distinct (map booking_id
         [slot 1 ''10:00'' ''11:00'' ''Booked'', slot 2 ''11:00'' ''12:00'' ''Booked'',
          slot 3 ''12:00'' ''13:00'' ''Booked'', slot 3 ''13:00'' ''14:00'' ''Booked''])"
  by (simp add: eval_defs window_defs)

text \<open>
  C8, amended. \<open>next_id\<close> is one more than the largest stored id, and 1 for an empty
  collection, in both variants. When the ids of the window's bookings are pairwise
  distinct they are still distinct after every operation that writes: saving an edit,
  cancelling and deleting in any case, and saving a new booking whose id comes from
  \<open>next_id\<close>, or a form that closes, provided the store holds the same ids as the window's
  list; and the store then holds the list of the window.
\<close>

theorem ids_stay_unique:
  "(\<forall>rows. next_id rows = (if rows = [] then 1 else Max (booking_id ` set rows) + 1))
   \<and> (\<forall>rows. next_id_Project2 rows
         = (if rows = [] then 1 else Max (booking_id ` set rows) + 1))
   \<and> (\<forall>nb w w'.
         distinct (map booking_id (bookings w))
         \<and> set (map booking_id (store_rows w)) = set (map booking_id (bookings w))
         \<and> (booking_id nb = next_id (store_rows w)
              \<or> booking_id nb = next_id_Project2 (store_rows w))
         \<and> on_booking_saved nb True w = (True, w')
         \<longrightarrow> distinct (map booking_id (bookings w')) \<and> store_rows w' = bookings w')
   \<and> (\<forall>nb w w'.
         distinct (map booking_id (bookings w))
         \<and> on_booking_saved nb False w = (True, w')
         \<longrightarrow> distinct (map booking_id (bookings w')) \<and> store_rows w' = bookings w')
   \<and> (\<forall>f editing w w'.
         distinct (map booking_id (bookings w))
         \<and> set (map booking_id (store_rows w)) = set (map booking_id (bookings w))
         \<and> form_save f editing w = (Closed, w')
         \<longrightarrow> distinct (map booking_id (bookings w')) \<and> store_rows w' = bookings w')
   \<and> (\<forall>sel confirm w w'.
         distinct (map booking_id (bookings w))
         \<and> cancel_booking sel confirm w = (Saved, w')
         \<longrightarrow> distinct (map booking_id (bookings w')) \<and> store_rows w' = bookings w')
   \<and> (\<forall>sel confirm w w'.
         distinct (map booking_id (bookings w))
         \<and> (delete_booking sel confirm w = (Saved, w')
              \<or> delete_booking_Project2 sel confirm w = (Saved, w'))
         \<longrightarrow> distinct (map booking_id (bookings w')) \<and> store_rows w' = bookings w')"
proof -
  have a: "\<forall>rows. next_id rows = (if rows = [] then 1 else Max (booking_id ` set rows) + 1)"
    by (intro allI) (rule next_id_eq)
  have b: "\<forall>rows. next_id_Project2 rows
         = (if rows = [] then 1 else Max (booking_id ` set rows) + 1)"
    by (intro allI) (rule next_id_Project2_eq)
  have c: "\<forall>nb w w'.
         distinct (map booking_id (bookings w))
         \<and> set (map booking_id (store_rows w)) = set (map booking_id (bookings w))
         \<and> (booking_id nb = next_id (store_rows w)
              \<or> booking_id nb = next_id_Project2 (store_rows w))
         \<and> on_booking_saved nb True w = (True, w')
         \<longrightarrow> distinct (map booking_id (bookings w')) \<and> store_rows w' = bookings w'"
  proof (intro allI impI, elim conjE)
    fix nb :: booking and w w' :: amenity_window
    assume d: "distinct (map booking_id (bookings w))"
      and s: "set (map booking_id (store_rows w)) = set (map booking_id (bookings w))"
      and i: "booking_id nb = next_id (store_rows w)
              \<or> booking_id nb = next_id_Project2 (store_rows w)"
      and o: "on_booking_saved nb True w = (True, w')"
    from s i have "booking_id nb \<notin> set (map booking_id (bookings w))"
      by (rule next_id_fresh)
    with d show "distinct (map booking_id (bookings w')) \<and> store_rows w' = bookings w'"
      using o by (rule on_booking_saved_new_distinct)
  qed
  have d: "\<forall>nb w w'.
         distinct (map booking_id (bookings w))
         \<and> on_booking_saved nb False w = (True, w')
         \<longrightarrow> distinct (map booking_id (bookings w')) \<and> store_rows w' = bookings w'"
    by (intro allI impI, elim conjE) (rule on_booking_saved_edit_distinct)
  have e: "\<forall>f editing w w'.
         distinct (map booking_id (bookings w))
         \<and> set (map booking_id (store_rows w)) = set (map booking_id (bookings w))
         \<and> form_save f editing w = (Closed, w')
         \<longrightarrow> distinct (map booking_id (bookings w')) \<and> store_rows w' = bookings w'"
    by (intro allI impI, elim conjE) (rule form_save_distinct)
  have f: "\<forall>sel confirm w w'.
         distinct (map booking_id (bookings w))
         \<and> cancel_booking sel confirm w = (Saved, w')
         \<longrightarrow> distinct (map booking_id (bookings w')) \<and> store_rows w' = bookings w'"
    by (intro allI impI, elim conjE) (rule cancel_booking_distinct)
  have g: "\<forall>sel confirm w w'.
         distinct (map booking_id (bookings w))
         \<and> (delete_booking sel confirm w = (Saved, w')
              \<or> delete_booking_Project2 sel confirm w = (Saved, w'))
         \<longrightarrow> distinct (map booking_id (bookings w')) \<and> store_rows w' = bookings w'"
    by (intro allI impI, elim conjE) (rule delete_booking_distinct)
  from a b c d e f g show ?thesis by (intro conjI)
qed

theorem ids_stay_unique_witness:
  "next_id [] = 1
   \<and> next_id_Project2 [slot 3 ''10:00'' ''11:00'' ''Booked'', slot 7 ''11:00'' ''12:00'' ''Booked''] = 8
   \<and> booking_id (slot 2 ''11:00'' ''12:00'' ''Booked'')
       = next_id (store_rows (window_of resident [slot 1 ''10:00'' ''11:00'' ''Booked'']))
   \<and> on_booking_saved (slot 2 ''11:00'' ''12:00'' ''Booked'') True
         (window_of resident [slot 1 ''10:00'' ''11:00'' ''Booked''])
       = (True, (window_of resident [slot 1 ''10:00'' ''11:00'' ''Booked'',
                    slot 2 ''11:00'' ''12:00'' ''Booked''])\<lparr>commits := 1\<rparr>)
   \<and> distinct (map booking_id (bookings ((window_of resident [slot 1 ''10:00'' ''11:00'' ''Booked'',
                    slot 2 ''11:00'' ''12:00'' ''Booked''])\<lparr>commits := 1\<rparr>)))
   \<and> on_booking_saved (slot 1 ''12:00'' ''13:00'' ''Booked'') False
         (window_of resident [slot 1 ''10:00'' ''11:00'' ''Booked''])
       = (True, (window_of resident [slot 1 ''12:00'' ''13:00'' ''Booked''])\<lparr>commits := 1\<rparr>)
   \<and> distinct (map booking_id (bookings
         ((window_of resident [slot 1 ''12:00'' ''13:00'' ''Booked''])\<lparr>commits := 1\<rparr>)))
   \<and> form_save (entries ''11:00'' ''12:00'') None
         (window_of resident [slot 1 ''10:00'' ''11:00'' ''Booked''])
       = (Closed, (window_of resident [slot 1 ''10:00'' ''11:00'' ''Booked'',
                    (slot 2 ''11:00'' ''12:00'' ''Booked'')\<lparr>created_by := ascii ''amy''\<rparr>])
                  \<lparr>commits := 1\<rparr>)
   \<and> distinct (map booking_id (bookings
         ((window_of resident [slot 1 ''10:00'' ''11:00'' ''Booked'',
                    (slot 2 ''11:00'' ''12:00'' ''Booked'')\<lparr>created_by := ascii ''amy''\<rparr>])
                  \<lparr>commits := 1\<rparr>)))
   \<and> cancel_booking (Some 0) True (window_of admin [slot 1 ''10:00'' ''11:00'' ''Booked''])
       = (Saved, (window_of admin [slot 1 ''10:00'' ''11:00'' ''Cancelled''])\<lparr>commits := 1\<rparr>)
   \<and> distinct (map booking_id (bookings
         ((window_of admin [slot 1 ''10:00'' ''11:00'' ''Cancelled''])\<lparr>commits := 1\<rparr>)))
   \<and> delete_booking_Project2 (Some 0) True
         (window_of admin [slot 1 ''10:00'' ''11:00'' ''Booked'', slot 2 ''11:00'' ''12:00'' ''Booked''])
       = (Saved, (window_of admin [slot 2 ''11:00'' ''12:00'' ''Booked''])\<lparr>commits := 1\<rparr>)
   \<and> distinct (map booking_id (bookings
         ((window_of admin [slot 2 ''11:00'' ''12:00'' ''Booked''])\<lparr>commits := 1\<rparr>)))
   \<and> delete_booking (Some 1) True
         (window_of resident [slot 1 ''10:00'' ''11:00'' ''Booked'', slot 2 ''11:00'' ''12:00'' ''Booked''])
       = (Saved, (window_of resident [slot 1 ''10:00'' ''11:00'' ''Booked''])\<lparr>commits := 1\<rparr>)
   \<and> distinct (map booking_id (bookings
         ((window_of resident [slot 1 ''10:00'' ''11:00'' ''Booked''])\<lparr>commits := 1\<rparr>)))"
proof -
  let ?b1 = "slot 1 ''10:00'' ''11:00'' ''Booked''"
  let ?b2 = "slot 2 ''11:00'' ''12:00'' ''Booked''"
  let ?w = "window_of resident [?b1]"
  let ?w1 = "(window_of resident [?b1, ?b2])\<lparr>commits := 1\<rparr>"
  let ?e1 = "slot 1 ''12:00'' ''13:00'' ''Booked''"
  let ?w2 = "(window_of resident [?e1])\<lparr>commits := 1\<rparr>"
  let ?w3 = "(window_of resident [?b1, ?b2\<lparr>created_by := ascii ''amy''\<rparr>])\<lparr>commits := 1\<rparr>"
  let ?wa = "window_of admin [?b1]"
  let ?w4 = "(window_of admin [slot 1 ''10:00'' ''11:00'' ''Cancelled''])\<lparr>commits := 1\<rparr>"
  let ?wd = "window_of admin [?b1, ?b2]"
  let ?w5 = "(window_of admin [?b2])\<lparr>commits := 1\<rparr>"
  have dw: "distinct (map booking_id (bookings ?w))"
    by (simp add: window_of_def)
  have sw: "set (map booking_id (store_rows ?w)) = set (map booking_id (bookings ?w))"
    by (simp add: window_of_def)
  have n1: "next_id [] = 1"
    by (simp add: next_id_def)
  have n2: "next_id_Project2 [slot 3 ''10:00'' ''11:00'' ''Booked'',
      slot 7 ''11:00'' ''12:00'' ''Booked''] = 8"
    by (simp add: slot_def)
  have i1: "booking_id ?b2 = next_id (store_rows ?w)"
    by (simp add: next_id_def window_of_def slot_def)
  have o1: "on_booking_saved ?b2 True ?w = (True, ?w1)"
    by (simp add: eval_defs window_defs)
  have o2: "on_booking_saved ?e1 False ?w = (True, ?w2)"
    by (simp add: eval_defs window_defs)
  have o3: "form_save (entries ''11:00'' ''12:00'') None ?w = (Closed, ?w3)"
    by (simp add: eval_defs window_defs form_defs)
  have o4: "cancel_booking (Some 0) True ?wa = (Saved, ?w4)"
    by (simp add: cancel_booking_def eval_defs window_defs)
  have dd: "distinct (map booking_id (bookings ?wd))"
    by (simp add: window_of_def slot_def)
  have o5: "delete_booking_Project2 (Some 0) True ?wd = (Saved, ?w5)"
    by (simp add: delete_booking_Project2_def eval_defs window_defs)
  have da: "distinct (map booking_id (bookings ?wa))"
    by (simp add: window_of_def)
  have "\<forall>nb w w'.
         distinct (map booking_id (bookings w))
         \<and> set (map booking_id (store_rows w)) = set (map booking_id (bookings w))
         \<and> (booking_id nb = next_id (store_rows w)
              \<or> booking_id nb = next_id_Project2 (store_rows w))
         \<and> on_booking_saved nb True w = (True, w')
         \<longrightarrow> distinct (map booking_id (bookings w')) \<and> store_rows w' = bookings w'"
    using ids_stay_unique by (elim conjE)
  moreover have "distinct (map booking_id (bookings ?w))
         \<and> set (map booking_id (store_rows ?w)) = set (map booking_id (bookings ?w))
         \<and> (booking_id ?b2 = next_id (store_rows ?w)
              \<or> booking_id ?b2 = next_id_Project2 (store_rows ?w))
         \<and> on_booking_saved ?b2 True ?w = (True, ?w1)"
    using dw sw i1 o1 by (intro conjI disjI1)
  ultimately have "distinct (map booking_id (bookings ?w1)) \<and> store_rows ?w1 = bookings ?w1"
    by (elim allE impE) assumption+
  then have r1: "distinct (map booking_id (bookings ?w1))" ..
  have "\<forall>nb w w'.
         distinct (map booking_id (bookings w))
         \<and> on_booking_saved nb False w = (True, w')
         \<longrightarrow> distinct (map booking_id (bookings w')) \<and> store_rows w' = bookings w'"
    using ids_stay_unique by (elim conjE)
  moreover have "distinct (map booking_id (bookings ?w))
         \<and> on_booking_saved ?e1 False ?w = (True, ?w2)"
    using dw o2 by (intro conjI)
  ultimately have "distinct (map booking_id (bookings ?w2)) \<and> store_rows ?w2 = bookings ?w2"
    by (elim allE impE) assumption+
  then have r2: "distinct (map booking_id (bookings ?w2))" ..
  have "\<forall>f editing w w'.
         distinct (map booking_id (bookings w))
         \<and> set (map booking_id (store_rows w)) = set (map booking_id (bookings w))
         \<and> form_save f editing w = (Closed, w')
         \<longrightarrow> distinct (map booking_id (bookings w')) \<and> store_rows w' = bookings w'"
    using ids_stay_unique by (elim conjE)
  moreover have "distinct (map booking_id (bookings ?w))
         \<and> set (map booking_id (store_rows ?w)) = set (map booking_id (bookings ?w))
         \<and> form_save (entries ''11:00'' ''12:00'') None ?w = (Closed, ?w3)"
    using dw sw o3 by (intro conjI)
  ultimately have "distinct (map booking_id (bookings ?w3)) \<and> store_rows ?w3 = bookings ?w3"
    by (elim allE impE) assumption+
  then have r3: "distinct (map booking_id (bookings ?w3))" ..
  have "\<forall>sel confirm w w'.
         distinct (map booking_id (bookings w))
         \<and> cancel_booking sel confirm w = (Saved, w')
         \<longrightarrow> distinct (map booking_id (bookings w')) \<and> store_rows w' = bookings w'"
    using ids_stay_unique by (elim conjE)
  moreover have "distinct (map booking_id (bookings ?wa))
         \<and> cancel_booking (Some 0) True ?wa = (Saved, ?w4)"
    using da o4 by (intro conjI)
  ultimately have "distinct (map booking_id (bookings ?w4)) \<and> store_rows ?w4 = bookings ?w4"
    by (elim allE impE) assumption+
  then have r4: "distinct (map booking_id (bookings ?w4))" ..
  have "\<forall>sel confirm w w'.
         distinct (map booking_id (bookings w))
         \<and> (delete_booking sel confirm w = (Saved, w')
              \<or> delete_booking_Project2 sel confirm w = (Saved, w'))
         \<longrightarrow> distinct (map booking_id (bookings w')) \<and> store_rows w' = bookings w'"
    using ids_stay_unique by (elim conjE)
  moreover have "distinct (map booking_id (bookings ?wd))
         \<and> (delete_booking (Some 0) True ?wd = (Saved, ?w5)
              \<or> delete_booking_Project2 (Some 0) True ?wd = (Saved, ?w5))"
    using dd o5 by (intro conjI disjI2)
  ultimately have "distinct (map booking_id (bookings ?w5)) \<and> store_rows ?w5 = bookings ?w5"
    by (elim allE impE) assumption+
  then have r5: "distinct (map booking_id (bookings ?w5))" ..
  let ?wr = "window_of resident [?b1, ?b2]"
  let ?w6 = "(window_of resident [?b1])\<lparr>commits := 1\<rparr>"
  have dr: "distinct (map booking_id (bookings ?wr))"
    by (simp add: window_of_def slot_def)
  have o6: "delete_booking (Some 1) True ?wr = (Saved, ?w6)"
    by (simp add: delete_booking_def eval_defs window_defs)
  have "\<forall>sel confirm w w'.
         distinct (map booking_id (bookings w))
         \<and> (delete_booking sel confirm w = (Saved, w')
              \<or> delete_booking_Project2 sel confirm w = (Saved, w'))
         \<longrightarrow> distinct (map booking_id (bookings w')) \<and> store_rows w' = bookings w'"
    using ids_stay_unique by (elim conjE)
  moreover have "distinct (map booking_id (bookings ?wr))
         \<and> (delete_booking (Some 1) True ?wr = (Saved, ?w6)
              \<or> delete_booking_Project2 (Some 1) True ?wr = (Saved, ?w6))"
    using dr o6 by (intro conjI disjI1)
  ultimately have "distinct (map booking_id (bookings ?w6)) \<and> store_rows ?w6 = bookings ?w6"
    by (elim allE impE) assumption+
  then have r6: "distinct (map booking_id (bookings ?w6))" ..
  from n1 n2 i1 o1 r1 o2 r2 o3 r3 o4 r4 o5 r5 o6 r6 show ?thesis by (intro conjI)
qed


section \<open>Digits, \<open>int\<close> and the patterns\<close>

lemma int_space_not_digit:
  assumes "int_space c"
  shows "decimal_value c = None"
proof -
  from assms have mem: "c \<in> set [9, 10, 11, 12, 13, 32, 133, 160, 5760, 8192, 8193, 8194, 8195, 8196, 8197,
               8198, 8199, 8200, 8201, 8202, 8232, 8233, 8239, 8287, 12288]"
    by (simp only: int_space_def)
  have all: "\<forall>x \<in> set [9, 10, 11, 12, 13, 32, 133, 160, 5760, 8192, 8193, 8194, 8195, 8196, 8197,
               8198, 8199, 8200, 8201, 8202, 8232, 8233, 8239, 8287, 12288]. decimal_value x = None"
    unfolding list.set ball_simps
    by (simp add: decimal_value_def decimal_zeros_def)
  from all mem show ?thesis by (rule bspec)
qed

lemma decimal_value_zero:
  assumes "decimal_value c = Some v"
  shows "\<exists>z \<in> set decimal_zeros. z \<le> c \<and> c < z + 10 \<and> v = c - z"
proof -
  from assms obtain z where f: "find (\<lambda>z. z \<le> c \<and> c < z + 10) decimal_zeros = Some z"
    and v: "v = c - z"
    by (auto simp: decimal_value_def split: option.splits)
  from f obtain i where "i < length decimal_zeros" "z = decimal_zeros ! i"
    "z \<le> c \<and> c < z + 10"
    unfolding find_Some_iff by blast
  with v show ?thesis by auto
qed

lemma zero_ascii: "z \<in> set decimal_zeros \<Longrightarrow> z < 128 \<Longrightarrow> z = 48"
  by (auto simp: decimal_zeros_def)

lemma decimal_value_lt10: "decimal_value c = Some v \<Longrightarrow> v < 10"
  using decimal_value_zero by fastforce

lemma decimal_value_ascii:
  assumes "decimal_value c = Some v" and "c < 128"
  shows "c = 48 + v"
proof -
  from assms(1) obtain z where z: "z \<in> set decimal_zeros" "z \<le> c" "c < z + 10" "v = c - z"
    using decimal_value_zero by blast
  with assms(2) have "z = 48" by (intro zero_ascii) simp_all
  with z show ?thesis by simp
qed

lemma decimal_value_48: "k < 10 \<Longrightarrow> decimal_value (48 + k) = Some k"
  by (simp add: decimal_value_def decimal_zeros_def)

lemma digit_not_special:
  assumes "decimal_value c = Some v"
  shows "\<not> int_space c" and "c \<noteq> 43" and "c \<noteq> 45" and "c \<noteq> 58" and "c \<noteq> 95"
proof -
  show "\<not> int_space c"
  proof
    assume "int_space c"
    then have "decimal_value c = None" by (rule int_space_not_digit)
    with assms show False by simp
  qed
  have "decimal_value 43 = None" "decimal_value 45 = None" "decimal_value 58 = None"
    "decimal_value 95 = None"
    by (simp_all add: decimal_value_def decimal_zeros_def)
  with assms show "c \<noteq> 43" and "c \<noteq> 45" and "c \<noteq> 58" and "c \<noteq> 95" by auto
qed

lemma is_digitE:
  assumes "is_digit c"
  obtains v where "decimal_value c = Some v"
  using assms by (auto simp: is_digit_def)

lemma py_int_2:
  assumes a: "decimal_value a = Some va" and b: "decimal_value b = Some vb"
  shows "py_int [a, b] = Some (int (va * 10 + vb))"
proof -
  from a b have "int_strip [a, b] = [a, b]"
    by (simp add: int_strip_def digit_not_special(1))
  moreover from a b have "int_digits False 0 [a, b] = Some (va * 10 + vb)"
    by (simp add: digit_not_special(5))
  ultimately show ?thesis
    using a by (simp add: py_int_def digit_not_special(2,3))
qed

lemma py_int_4:
  assumes a: "decimal_value a = Some va" and b: "decimal_value b = Some vb"
    and c: "decimal_value c = Some vc" and d: "decimal_value d = Some vd"
  shows "py_int [a, b, c, d] = Some (int (((va * 10 + vb) * 10 + vc) * 10 + vd))"
proof -
  from a d have "int_strip [a, b, c, d] = [a, b, c, d]"
    by (simp add: int_strip_def digit_not_special(1))
  moreover from a b c d
  have "int_digits False 0 [a, b, c, d] = Some (((va * 10 + vb) * 10 + vc) * 10 + vd)"
    by (simp add: digit_not_special(5))
  ultimately show ?thesis
    using a by (simp add: py_int_def digit_not_special(2,3))
qed

lemma fullmatch_length: "fullmatch ps s \<Longrightarrow> length s = length ps"
  by (induction ps s rule: fullmatch.induct) simp_all

lemma fullmatch_time_iff:
  "fullmatch time_pattern s \<longleftrightarrow>
     (\<exists>a b c d. s = [a, b, 58, c, d] \<and> is_digit a \<and> is_digit b \<and> is_digit c \<and> is_digit d)"
proof
  assume m: "fullmatch time_pattern s"
  then have "length s = 5" by (simp add: fullmatch_length time_pattern_def)
  then obtain a b x c d where s: "s = [a, b, x, c, d]"
    by (auto simp: length_Suc_conv eval_nat_numeral)
  with m show "\<exists>a b c d. s = [a, b, 58, c, d] \<and> is_digit a \<and> is_digit b \<and> is_digit c \<and> is_digit d"
    by (simp add: time_pattern_def)
next
  assume "\<exists>a b c d. s = [a, b, 58, c, d] \<and> is_digit a \<and> is_digit b \<and> is_digit c \<and> is_digit d"
  then show "fullmatch time_pattern s" by (auto simp: time_pattern_def)
qed

lemma fullmatch_date_iff:
  "fullmatch date_pattern s \<longleftrightarrow>
     (\<exists>a b c d e f g h. s = [a, b, c, d, 45, e, f, 45, g, h] \<and> is_digit a \<and> is_digit b
        \<and> is_digit c \<and> is_digit d \<and> is_digit e \<and> is_digit f \<and> is_digit g \<and> is_digit h)"
proof
  assume m: "fullmatch date_pattern s"
  then have "length s = 10" by (simp add: fullmatch_length date_pattern_def)
  then obtain a b c d x e f y g h where s: "s = [a, b, c, d, x, e, f, y, g, h]"
    by (auto simp: length_Suc_conv eval_nat_numeral)
  with m show "\<exists>a b c d e f g h. s = [a, b, c, d, 45, e, f, 45, g, h] \<and> is_digit a \<and> is_digit b
        \<and> is_digit c \<and> is_digit d \<and> is_digit e \<and> is_digit f \<and> is_digit g \<and> is_digit h"
    by (simp add: date_pattern_def)
next
  assume "\<exists>a b c d e f g h. s = [a, b, c, d, 45, e, f, 45, g, h] \<and> is_digit a \<and> is_digit b
        \<and> is_digit c \<and> is_digit d \<and> is_digit e \<and> is_digit f \<and> is_digit g \<and> is_digit h"
  then show "fullmatch date_pattern s" by (auto simp: date_pattern_def)
qed

lemma split_time:
  assumes "decimal_value a = Some va" "decimal_value b = Some vb"
    "decimal_value c = Some vc" "decimal_value d = Some vd"
  shows "split_on 58 [a, b, 58, c, d] = [[a, b], [c, d]]"
  using assms by (simp add: digit_not_special(4))

lemma split_date:
  assumes "decimal_value a = Some va" "decimal_value b = Some vb"
    "decimal_value c = Some vc" "decimal_value d = Some vd"
    "decimal_value e = Some ve" "decimal_value f = Some vf"
    "decimal_value g = Some vg" "decimal_value h = Some vh"
  shows "split_on 45 [a, b, c, d, 45, e, f, 45, g, h] = [[a, b, c, d], [e, f], [g, h]]"
  using assms by (simp add: digit_not_special(3))

section \<open>The time validator and the conversion to minutes\<close>

lemma validate_time_matched:
  assumes a: "decimal_value a = Some va" and b: "decimal_value b = Some vb"
    and c: "decimal_value c = Some vc" and d: "decimal_value d = Some vd"
  shows "validate_time [a, b, 58, c, d] f =
      (if 23 < va * 10 + vb then Inl (Hour_range f)
       else if 59 < vc * 10 + vd then Inl (Minute_range f)
       else Inr [a, b, 58, c, d])"
    and "hour_minute [a, b, 58, c, d] = Inr (int (va * 10 + vb), int (vc * 10 + vd))"
    and "parse_time_to_minutes [a, b, 58, c, d] = int (va * 10 + vb) * 60 + int (vc * 10 + vd)"
proof -
  have m: "fullmatch time_pattern [a, b, 58, c, d]"
    using a b c d by (simp add: time_pattern_def is_digit_def)
  have s: "split_on 58 [a, b, 58, c, d] = [[a, b], [c, d]]"
    using a b c d by (rule split_time)
  have h: "py_int [a, b] = Some (int (va * 10 + vb))" using a b by (rule py_int_2)
  have n: "py_int [c, d] = Some (int (vc * 10 + vd))" using c d by (rule py_int_2)
  show "validate_time [a, b, 58, c, d] f =
      (if 23 < va * 10 + vb then Inl (Hour_range f)
       else if 59 < vc * 10 + vd then Inl (Minute_range f)
       else Inr [a, b, 58, c, d])"
    unfolding validate_time_def using m by (simp add: s h n del: split_on.simps)
  show "hour_minute [a, b, 58, c, d] = Inr (int (va * 10 + vb), int (vc * 10 + vd))"
    unfolding hour_minute_def by (simp add: s h n del: split_on.simps)
  show "parse_time_to_minutes [a, b, 58, c, d] = int (va * 10 + vb) * 60 + int (vc * 10 + vd)"
    unfolding parse_time_to_minutes_def by (simp add: s h n del: split_on.simps)
qed

lemma validate_time_unmatched:
  "\<not> fullmatch time_pattern s \<Longrightarrow> validate_time s f = Inl (Time_format f)"
  by (simp add: validate_time_def)

lemma validate_time_cases:
  assumes "fullmatch time_pattern s"
  shows "\<exists>h m. hour_minute s = Inr (h, m) \<and> 0 \<le> h \<and> 0 \<le> m
      \<and> parse_time_to_minutes s = h * 60 + m
      \<and> validate_time s f =
          (if \<not> (0 \<le> h \<and> h \<le> 23) then Inl (Hour_range f)
           else if \<not> (0 \<le> m \<and> m \<le> 59) then Inl (Minute_range f)
           else Inr s)"
proof -
  from assms obtain a b c d where s: "s = [a, b, 58, c, d]"
    and "is_digit a" "is_digit b" "is_digit c" "is_digit d"
    unfolding fullmatch_time_iff by blast
  then obtain va vb vc vd where v: "decimal_value a = Some va" "decimal_value b = Some vb"
    "decimal_value c = Some vc" "decimal_value d = Some vd"
    by (auto simp: is_digit_def)
  show ?thesis
    unfolding s validate_time_matched [OF v]
    by (intro exI [of _ "int (va * 10 + vb)"] exI [of _ "int (vc * 10 + vd)"]) auto
qed

lemma validate_time_Inr:
  assumes "validate_time s f = Inr r"
  shows "r = s" and "fullmatch time_pattern s"
proof -
  show m: "fullmatch time_pattern s"
  proof (rule ccontr)
    assume "\<not> fullmatch time_pattern s"
    then have "validate_time s f = Inl (Time_format f)" by (rule validate_time_unmatched)
    with assms show False by simp
  qed
  from validate_time_cases [OF m, of f] assms show "r = s"
    by (auto split: if_splits)
qed

lemmas time_defs = ascii_def validate_time_def time_pattern_def is_digit_def py_int_def
  int_strip_def int_space_def decimal_value_def decimal_zeros_def

text \<open>
  C6. \<open>validate_time\<close> fails with the format error unless the string is two digits, a
  colon and two digits. On such a string it fails when the hour is above 23 or the minute
  above 59 and otherwise returns the string itself. So "9:00", "12:0", "24:00" and "aa:bb"
  fail, "00:00" and "23:59" succeed, and whatever is accepted is returned unchanged.
\<close>

theorem validate_time_spec:
  "(\<forall>s f. \<not> (\<exists>a b c d. s = [a, b, 58, c, d] \<and> is_digit a \<and> is_digit b \<and> is_digit c
              \<and> is_digit d) \<longrightarrow> validate_time s f = Inl (Time_format f))
   \<and> (\<forall>s f. (\<exists>a b c d. s = [a, b, 58, c, d] \<and> is_digit a \<and> is_digit b \<and> is_digit c
              \<and> is_digit d) \<longrightarrow>
          (\<exists>h m. hour_minute s = Inr (h, m)
             \<and> validate_time s f =
                 (if \<not> (0 \<le> h \<and> h \<le> 23) then Inl (Hour_range f)
                  else if \<not> (0 \<le> m \<and> m \<le> 59) then Inl (Minute_range f)
                  else Inr s)))
   \<and> (\<forall>s f r. validate_time s f = Inr r \<longrightarrow> r = s)
   \<and> validate_time (ascii ''9:00'') (ascii ''time'') = Inl (Time_format (ascii ''time''))
   \<and> validate_time (ascii ''12:0'') (ascii ''time'') = Inl (Time_format (ascii ''time''))
   \<and> validate_time (ascii ''24:00'') (ascii ''time'') = Inl (Hour_range (ascii ''time''))
   \<and> validate_time (ascii ''aa:bb'') (ascii ''time'') = Inl (Time_format (ascii ''time''))
   \<and> validate_time (ascii ''00:00'') (ascii ''time'') = Inr (ascii ''00:00'')
   \<and> validate_time (ascii ''23:59'') (ascii ''time'') = Inr (ascii ''23:59'')"
proof -
  have a: "\<forall>s f. \<not> (\<exists>a b c d. s = [a, b, 58, c, d] \<and> is_digit a \<and> is_digit b \<and> is_digit c
              \<and> is_digit d) \<longrightarrow> validate_time s f = Inl (Time_format f)"
    unfolding fullmatch_time_iff [symmetric] by (intro allI impI) (rule validate_time_unmatched)
  have b: "\<forall>s f. (\<exists>a b c d. s = [a, b, 58, c, d] \<and> is_digit a \<and> is_digit b \<and> is_digit c
              \<and> is_digit d) \<longrightarrow>
          (\<exists>h m. hour_minute s = Inr (h, m)
             \<and> validate_time s f =
                 (if \<not> (0 \<le> h \<and> h \<le> 23) then Inl (Hour_range f)
                  else if \<not> (0 \<le> m \<and> m \<le> 59) then Inl (Minute_range f)
                  else Inr s))"
    unfolding fullmatch_time_iff [symmetric]
  proof (intro allI impI)
    fix s f
    assume "fullmatch time_pattern s"
    from validate_time_cases [OF this, of f]
    show "\<exists>h m. hour_minute s = Inr (h, m)
             \<and> validate_time s f =
                 (if \<not> (0 \<le> h \<and> h \<le> 23) then Inl (Hour_range f)
                  else if \<not> (0 \<le> m \<and> m \<le> 59) then Inl (Minute_range f)
                  else Inr s)"
      by blast
  qed
  have c: "\<forall>s f r. validate_time s f = Inr r \<longrightarrow> r = s"
    by (intro allI impI) (rule validate_time_Inr(1))
  have e1: "validate_time (ascii ''9:00'') (ascii ''time'') = Inl (Time_format (ascii ''time''))"
    by (simp add: time_defs)
  have e2: "validate_time (ascii ''12:0'') (ascii ''time'') = Inl (Time_format (ascii ''time''))"
    by (simp add: time_defs)
  have e3: "validate_time (ascii ''24:00'') (ascii ''time'') = Inl (Hour_range (ascii ''time''))"
    by (simp add: time_defs)
  have e4: "validate_time (ascii ''aa:bb'') (ascii ''time'') = Inl (Time_format (ascii ''time''))"
    by (simp add: time_defs)
  have e5: "validate_time (ascii ''00:00'') (ascii ''time'') = Inr (ascii ''00:00'')"
    by (simp add: time_defs)
  have e6: "validate_time (ascii ''23:59'') (ascii ''time'') = Inr (ascii ''23:59'')"
    by (simp add: time_defs)
  from a b c e1 e2 e3 e4 e5 e6 show ?thesis by (intro conjI)
qed

theorem validate_time_spec_witness:
  "\<not> (\<exists>a b c d. ascii ''9:00'' = [a, b, 58, c, d] \<and> is_digit a \<and> is_digit b \<and> is_digit c
         \<and> is_digit d)
   \<and> validate_time (ascii ''9:00'') (ascii ''end_time'') = Inl (Time_format (ascii ''end_time''))
   \<and> (\<exists>a b c d. ascii ''23:59'' = [a, b, 58, c, d] \<and> is_digit a \<and> is_digit b \<and> is_digit c
         \<and> is_digit d)
   \<and> (\<exists>h m. hour_minute (ascii ''23:59'') = Inr (h, m)
         \<and> validate_time (ascii ''23:59'') (ascii ''end_time'') =
             (if \<not> (0 \<le> h \<and> h \<le> 23) then Inl (Hour_range (ascii ''end_time''))
              else if \<not> (0 \<le> m \<and> m \<le> 59) then Inl (Minute_range (ascii ''end_time''))
              else Inr (ascii ''23:59'')))
   \<and> validate_time (ascii ''00:00'') (ascii ''end_time'') = Inr (ascii ''00:00'')"
proof -
  have h1: "\<not> (\<exists>a b c d. ascii ''9:00'' = [a, b, 58, c, d] \<and> is_digit a \<and> is_digit b
      \<and> is_digit c \<and> is_digit d)"
    by (simp add: ascii_def)
  have h2: "\<exists>a b c d. ascii ''23:59'' = [a, b, 58, c, d] \<and> is_digit a \<and> is_digit b
      \<and> is_digit c \<and> is_digit d"
    by (simp add: time_defs)
  have h3: "validate_time (ascii ''00:00'') (ascii ''end_time'') = Inr (ascii ''00:00'')"
    by (simp add: time_defs)
  have "\<forall>s f. \<not> (\<exists>a b c d. s = [a, b, 58, c, d] \<and> is_digit a \<and> is_digit b \<and> is_digit c
              \<and> is_digit d) \<longrightarrow> validate_time s f = Inl (Time_format f)"
    using validate_time_spec by (elim conjE)
  then have r1: "validate_time (ascii ''9:00'') (ascii ''end_time'')
      = Inl (Time_format (ascii ''end_time''))"
    using h1 by (elim allE impE) assumption+
  have "\<forall>s f. (\<exists>a b c d. s = [a, b, 58, c, d] \<and> is_digit a \<and> is_digit b \<and> is_digit c
              \<and> is_digit d) \<longrightarrow>
          (\<exists>h m. hour_minute s = Inr (h, m)
             \<and> validate_time s f =
                 (if \<not> (0 \<le> h \<and> h \<le> 23) then Inl (Hour_range f)
                  else if \<not> (0 \<le> m \<and> m \<le> 59) then Inl (Minute_range f)
                  else Inr s))"
    using validate_time_spec by (elim conjE)
  then have r2: "\<exists>h m. hour_minute (ascii ''23:59'') = Inr (h, m)
         \<and> validate_time (ascii ''23:59'') (ascii ''end_time'') =
             (if \<not> (0 \<le> h \<and> h \<le> 23) then Inl (Hour_range (ascii ''end_time''))
              else if \<not> (0 \<le> m \<and> m \<le> 59) then Inl (Minute_range (ascii ''end_time''))
              else Inr (ascii ''23:59''))"
    using h2 by (elim allE impE) assumption+
  have "\<forall>s f r. validate_time s f = Inr r \<longrightarrow> r = s"
    using validate_time_spec by (elim conjE)
  then have "ascii ''00:00'' = ascii ''00:00''"
    using h3 by (elim allE impE) assumption+
  with h1 r1 h2 r2 h3 show ?thesis by (intro conjI)
qed

text \<open>
  C4, as the claim states it, fails: "9:00" is refused by \<open>validate_time\<close>, yet it converts
  to 540 minutes, and a candidate that starts at "9:00" is checked against the stored
  bookings like any other.
\<close>

theorem malformed_time_parses_counterexample:
  "validate_time (ascii ''9:00'') (ascii ''start_time'')
     = Inl (Time_format (ascii ''start_time''))
   \<and> parse_time_to_minutes (ascii ''9:00'') = 540
   \<and> has_conflict (slot 2 ''9:00'' ''10:00'' ''Booked'') [slot 1 ''09:00'' ''10:00'' ''Booked'']"
  by (simp add: time_defs eval_defs)

text \<open>
  C4, amended. A time string that does not split at the colon into exactly two pieces
  that \<open>int\<close> can both read converts to the sentinel \<open>-1\<close>, and \<open>has_conflict\<close> answers
  ``no conflict'' for every candidate one of whose times converts to a negative value.
\<close>

theorem unreadable_time_is_sentinel:
  "(\<forall>s. (\<forall>h m. split_on 58 s = [h, m] \<longrightarrow> py_int h = None \<or> py_int m = None)
        \<longrightarrow> parse_time_to_minutes s = - 1)
   \<and> (\<forall>nb bs. parse_time_to_minutes (start_time nb) < 0
          \<or> parse_time_to_minutes (end_time nb) < 0 \<longrightarrow> \<not> has_conflict nb bs)"
proof (intro conjI allI impI)
  fix s
  assume "\<forall>h m. split_on 58 s = [h, m] \<longrightarrow> py_int h = None \<or> py_int m = None"
  then show "parse_time_to_minutes s = - 1"
    by (auto simp: parse_time_to_minutes_def split: list.splits option.splits)
next
  fix nb :: booking and bs :: "booking list"
  assume "parse_time_to_minutes (start_time nb) < 0 \<or> parse_time_to_minutes (end_time nb) < 0"
  then show "\<not> has_conflict nb bs"
    by (auto simp: has_conflict_def Let_def)
qed

theorem unreadable_time_is_sentinel_witness:
  "split_on 58 (ascii ''aa:bb'') = [ascii ''aa'', ascii ''bb'']
   \<and> py_int (ascii ''aa'') = None
   \<and> parse_time_to_minutes (ascii ''aa:bb'') = - 1
   \<and> parse_time_to_minutes (start_time (slot 2 ''aa:bb'' ''10:00'' ''Booked'')) < 0
   \<and> \<not> has_conflict (slot 2 ''aa:bb'' ''10:00'' ''Booked'') [slot 1 ''09:00'' ''10:00'' ''Booked'']"
proof -
  have h1: "\<forall>h m. split_on 58 (ascii ''aa:bb'') = [h, m] \<longrightarrow> py_int h = None \<or> py_int m = None"
    by (simp add: time_defs)
  have h2: "parse_time_to_minutes (start_time (slot 2 ''aa:bb'' ''10:00'' ''Booked'')) < 0"
    by (simp add: eval_defs)
  have "\<forall>s. (\<forall>h m. split_on 58 s = [h, m] \<longrightarrow> py_int h = None \<or> py_int m = None)
        \<longrightarrow> parse_time_to_minutes s = - 1"
    using unreadable_time_is_sentinel by (elim conjE)
  then have "(\<forall>h m. split_on 58 (ascii ''aa:bb'') = [h, m] \<longrightarrow> py_int h = None \<or> py_int m = None)
        \<longrightarrow> parse_time_to_minutes (ascii ''aa:bb'') = - 1"
    by (rule spec)
  then have r1: "parse_time_to_minutes (ascii ''aa:bb'') = - 1"
    using h1 by (rule mp)
  have "\<forall>nb bs. parse_time_to_minutes (start_time nb) < 0
          \<or> parse_time_to_minutes (end_time nb) < 0 \<longrightarrow> \<not> has_conflict nb bs"
    using unreadable_time_is_sentinel by (elim conjE)
  moreover from h2 have "parse_time_to_minutes (start_time (slot 2 ''aa:bb'' ''10:00'' ''Booked'')) < 0
      \<or> parse_time_to_minutes (end_time (slot 2 ''aa:bb'' ''10:00'' ''Booked'')) < 0" ..
  ultimately have r2: "\<not> has_conflict (slot 2 ''aa:bb'' ''10:00'' ''Booked'')
      [slot 1 ''09:00'' ''10:00'' ''Booked'']"
    by (elim allE impE) assumption+
  have h0: "split_on 58 (ascii ''aa:bb'') = [ascii ''aa'', ascii ''bb'']"
    by (simp add: ascii_def)
  have h0': "py_int (ascii ''aa'') = None"
    by (simp add: time_defs)
  from h0 h0' r1 h2 r2 show ?thesis by (intro conjI)
qed


section \<open>The date validator\<close>

lemma decimal_1: "n < 10 \<Longrightarrow> decimal n = [48 + n]"
  by (subst decimal.simps) simp

lemma decimal_step: "10 \<le> n \<Longrightarrow> decimal n = decimal (n div 10) @ [48 + n mod 10]"
  by (subst decimal.simps) simp

lemma div10_less: "(n::nat) < k * 10 \<Longrightarrow> n div 10 < k"
  by (rule less_mult_imp_div_less)

lemma div10_ge: "(k::nat) * 10 \<le> n \<Longrightarrow> k \<le> n div 10"
  by (simp add: less_eq_div_iff_mult_less_eq)

lemma decimal_2: "10 \<le> n \<Longrightarrow> n < 100 \<Longrightarrow> decimal n = [48 + n div 10, 48 + n mod 10]"
proof -
  assume a: "10 \<le> n" "n < 100"
  then have "n div 10 < 10" by (intro div10_less) simp
  with a show ?thesis by (simp add: decimal_step decimal_1)
qed

lemma decimal_3:
  assumes "100 \<le> n" "n < 1000"
  shows "decimal n = [48 + n div 10 div 10, 48 + n div 10 mod 10, 48 + n mod 10]"
proof -
  from assms have "10 \<le> n div 10" "n div 10 < 100"
    by (intro div10_ge div10_less; simp)+
  then have "decimal (n div 10) = [48 + n div 10 div 10, 48 + n div 10 mod 10]"
    by (rule decimal_2)
  with assms show ?thesis by (simp add: decimal_step)
qed

lemma decimal_4:
  assumes "1000 \<le> n" "n < 10000"
  shows "decimal n = [48 + n div 10 div 10 div 10, 48 + n div 10 div 10 mod 10,
      48 + n div 10 mod 10, 48 + n mod 10]"
proof -
  from assms have "100 \<le> n div 10" "n div 10 < 1000"
    by (intro div10_ge div10_less; simp)+
  then have "decimal (n div 10)
      = [48 + n div 10 div 10 div 10, 48 + n div 10 div 10 mod 10, 48 + n div 10 mod 10]"
    by (rule decimal_3)
  with assms show ?thesis by (simp add: decimal_step)
qed

lemma zero_pad_2:
  assumes "n < 100"
  shows "zero_pad 2 (decimal n) = [48 + n div 10, 48 + n mod 10]"
proof (cases "n < 10")
  case True
  then show ?thesis by (simp add: decimal_1 zero_pad_def)
next
  case False
  with assms show ?thesis by (simp add: decimal_2 zero_pad_def)
qed

lemma replicate_23: "replicate 2 x = [x, x]" "replicate 3 x = [x, x, x]"
  by (simp_all add: numeral_2_eq_2 numeral_3_eq_3)

lemma zero_pad_4:
  assumes "n < 10000"
  shows "zero_pad 4 (decimal n)
      = [48 + n div 10 div 10 div 10, 48 + n div 10 div 10 mod 10, 48 + n div 10 mod 10,
         48 + n mod 10]"
proof -
  consider "n < 10" | "10 \<le> n" "n < 100" | "100 \<le> n" "n < 1000" | "1000 \<le> n"
    by linarith
  then show ?thesis
  proof cases
    case 1
    then show ?thesis by (simp add: decimal_1 zero_pad_def replicate_23)
  next
    case 2
    then have "n div 10 < 10" by (intro div10_less) simp
    with 2 show ?thesis by (simp add: decimal_2 zero_pad_def replicate_23)
  next
    case 3
    then have "n div 10 < 100" by (intro div10_less) simp
    then have "n div 10 div 10 < 10" by (intro div10_less) simp
    with 3 show ?thesis by (simp add: decimal_3 zero_pad_def)
  next
    case 4
    with assms show ?thesis by (simp add: decimal_4 zero_pad_def)
  qed
qed

lemma digits4_value:
  "((n div 10 div 10 div 10 * 10 + n div 10 div 10 mod 10) * 10 + n div 10 mod 10) * 10
     + n mod 10 = (n::nat)"
  by simp

lemma digits2_value: "n div 10 * 10 + n mod 10 = (n::nat)"
  by simp

lemma value_digits2:
  fixes a b :: nat
  assumes "b < 10"
  shows "(a * 10 + b) div 10 = a" and "(a * 10 + b) mod 10 = b"
  using assms by simp_all

lemma validate_date_unmatched:
  "\<not> fullmatch date_pattern s \<Longrightarrow> validate_and_normalize_date s = Inl Date_format"
  by (simp add: validate_and_normalize_date_def)

lemma validate_date_matched:
  assumes a: "decimal_value a = Some va" and b: "decimal_value b = Some vb"
    and c: "decimal_value c = Some vc" and d: "decimal_value d = Some vd"
    and e: "decimal_value e = Some ve" and f: "decimal_value f = Some vf"
    and g: "decimal_value g = Some vg" and h: "decimal_value h = Some vh"
  shows "validate_and_normalize_date [a, b, c, d, 45, e, f, 45, g, h] =
      (case mk_date (int (((va * 10 + vb) * 10 + vc) * 10 + vd)) (int (ve * 10 + vf))
              (int (vg * 10 + vh)) of
         None \<Rightarrow> Inl Invalid_date_value
       | Some candidate \<Rightarrow>
           if date_less candidate MIN_BOOKING_DATE then Inl Date_too_early
           else Inr (isoformat candidate))"
proof -
  have m: "fullmatch date_pattern [a, b, c, d, 45, e, f, 45, g, h]"
    using a b c d e f g h by (simp add: date_pattern_def is_digit_def)
  have s: "split_on 45 [a, b, c, d, 45, e, f, 45, g, h] = [[a, b, c, d], [e, f], [g, h]]"
    using a b c d e f g h by (rule split_date)
  have y: "py_int [a, b, c, d] = Some (int (((va * 10 + vb) * 10 + vc) * 10 + vd))"
    using a b c d by (rule py_int_4)
  have mo: "py_int [e, f] = Some (int (ve * 10 + vf))" using e f by (rule py_int_2)
  have da: "py_int [g, h] = Some (int (vg * 10 + vh))" using g h by (rule py_int_2)
  show ?thesis
    unfolding validate_and_normalize_date_def using m
    by (simp add: s y mo da del: split_on.simps)
qed

lemma isoformat_digits:
  assumes "mk_date y m d = Some c"
  shows "isoformat c =
      [48 + nat y div 10 div 10 div 10, 48 + nat y div 10 div 10 mod 10,
       48 + nat y div 10 mod 10, 48 + nat y mod 10, 45,
       48 + nat m div 10, 48 + nat m mod 10, 45,
       48 + nat d div 10, 48 + nat d mod 10]"
    and "nat y < 10000" and "nat m < 100" and "nat d < 100"
    and "0 \<le> y" and "0 \<le> m" and "0 \<le> d"
proof -
  from assms have c: "c = \<lparr>year = y, month = m, day = d\<rparr>"
    and r: "1 \<le> y" "y \<le> 9999" "1 \<le> m" "m \<le> 12" "1 \<le> d" "d \<le> days_in_month y m"
    by (auto simp: mk_date_def split: if_splits)
  have "days_in_month y m \<le> 31" by (simp add: days_in_month_def)
  with r have d31: "d \<le> 31" by simp
  from r show y: "nat y < 10000" and m: "nat m < 100" by simp_all
  from d31 show d: "nat d < 100" by simp
  from r show "0 \<le> y" "0 \<le> m" "0 \<le> d" by simp_all
  show "isoformat c =
      [48 + nat y div 10 div 10 div 10, 48 + nat y div 10 div 10 mod 10,
       48 + nat y div 10 mod 10, 48 + nat y mod 10, 45,
       48 + nat m div 10, 48 + nat m mod 10, 45,
       48 + nat d div 10, 48 + nat d mod 10]"
    unfolding isoformat_def c by (simp add: zero_pad_4 [OF y] zero_pad_2 [OF m] zero_pad_2 [OF d])
qed

lemma validate_date_isoformat:
  assumes mk: "mk_date y m d = Some c" and min: "\<not> date_less c MIN_BOOKING_DATE"
  shows "validate_and_normalize_date (isoformat c) = Inr (isoformat c)"
proof -
  note iso = isoformat_digits [OF mk]
  let ?Y = "nat y" and ?M = "nat m" and ?D = "nat d"
  have y3: "?Y div 10 div 10 div 10 < 10"
    using iso(2) by (intro div10_less) simp
  have m1: "?M div 10 < 10" using iso(3) by (intro div10_less) simp
  have d1: "?D div 10 < 10" using iso(4) by (intro div10_less) simp
  have dv: "decimal_value (48 + ?Y div 10 div 10 div 10) = Some (?Y div 10 div 10 div 10)"
    "decimal_value (48 + ?Y div 10 div 10 mod 10) = Some (?Y div 10 div 10 mod 10)"
    "decimal_value (48 + ?Y div 10 mod 10) = Some (?Y div 10 mod 10)"
    "decimal_value (48 + ?Y mod 10) = Some (?Y mod 10)"
    "decimal_value (48 + ?M div 10) = Some (?M div 10)"
    "decimal_value (48 + ?M mod 10) = Some (?M mod 10)"
    "decimal_value (48 + ?D div 10) = Some (?D div 10)"
    "decimal_value (48 + ?D mod 10) = Some (?D mod 10)"
    using y3 m1 d1 by (simp_all add: decimal_value_48)
  have rt: "int (((?Y div 10 div 10 div 10 * 10 + ?Y div 10 div 10 mod 10) * 10
        + ?Y div 10 mod 10) * 10 + ?Y mod 10) = y"
    "int (?M div 10 * 10 + ?M mod 10) = m" "int (?D div 10 * 10 + ?D mod 10) = d"
    using iso(5,6,7) by (simp_all only: digits4_value digits2_value int_nat_eq if_True)
  show ?thesis
    unfolding iso(1) validate_date_matched [OF dv] rt mk
    using min by (simp add: iso(1))
qed

lemma validate_date_Inr:
  assumes "validate_and_normalize_date s = Inr r"
  shows "\<exists>a b c d e f g h y m dd cand.
      s = [a, b, c, d, 45, e, f, 45, g, h]
      \<and> py_int [a, b, c, d] = Some y \<and> py_int [e, f] = Some m \<and> py_int [g, h] = Some dd
      \<and> mk_date y m dd = Some cand \<and> \<not> date_less cand MIN_BOOKING_DATE
      \<and> r = isoformat cand"
proof -
  have m: "fullmatch date_pattern s"
  proof (rule ccontr)
    assume "\<not> fullmatch date_pattern s"
    then have "validate_and_normalize_date s = Inl Date_format"
      by (rule validate_date_unmatched)
    with assms show False by simp
  qed
  then obtain a b c d e f g h where s: "s = [a, b, c, d, 45, e, f, 45, g, h]"
    and "is_digit a" "is_digit b" "is_digit c" "is_digit d"
      "is_digit e" "is_digit f" "is_digit g" "is_digit h"
    unfolding fullmatch_date_iff by blast
  then obtain va vb vc vd ve vf vg vh where v: "decimal_value a = Some va"
    "decimal_value b = Some vb" "decimal_value c = Some vc" "decimal_value d = Some vd"
    "decimal_value e = Some ve" "decimal_value f = Some vf" "decimal_value g = Some vg"
    "decimal_value h = Some vh"
    unfolding is_digit_def by blast
  let ?y = "int (((va * 10 + vb) * 10 + vc) * 10 + vd)"
  let ?m = "int (ve * 10 + vf)"
  let ?d = "int (vg * 10 + vh)"
  have py: "py_int [a, b, c, d] = Some ?y" "py_int [e, f] = Some ?m" "py_int [g, h] = Some ?d"
    using v by (simp_all only: py_int_4 py_int_2)
  from assms have r: "(case mk_date ?y ?m ?d of
         None \<Rightarrow> Inl Invalid_date_value
       | Some candidate \<Rightarrow>
           if date_less candidate MIN_BOOKING_DATE then Inl Date_too_early
           else Inr (isoformat candidate)) = Inr r"
    unfolding s validate_date_matched [OF v] .
  then obtain cand where cand: "mk_date ?y ?m ?d = Some cand"
    by (cases "mk_date ?y ?m ?d") simp_all
  with r have "\<not> date_less cand MIN_BOOKING_DATE" "r = isoformat cand"
    by (simp_all split: if_splits)
  with s py cand show ?thesis by blast
qed

lemma validate_date_idempotent:
  assumes "validate_and_normalize_date s = Inr r"
  shows "validate_and_normalize_date r = Inr r"
proof -
  from validate_date_Inr [OF assms] obtain y m dd cand where
    "mk_date y m dd = Some cand" "\<not> date_less cand MIN_BOOKING_DATE" "r = isoformat cand"
    by blast
  then show ?thesis by (simp add: validate_date_isoformat)
qed

lemma validate_date_ascii:
  assumes ok: "validate_and_normalize_date s = Inr r" and asc: "\<forall>x \<in> set s. x < 128"
  shows "r = s"
proof -
  have m: "fullmatch date_pattern s"
  proof (rule ccontr)
    assume "\<not> fullmatch date_pattern s"
    then have "validate_and_normalize_date s = Inl Date_format"
      by (rule validate_date_unmatched)
    with ok show False by simp
  qed
  then obtain a b c d e f g h where s: "s = [a, b, c, d, 45, e, f, 45, g, h]"
    and "is_digit a" "is_digit b" "is_digit c" "is_digit d"
      "is_digit e" "is_digit f" "is_digit g" "is_digit h"
    unfolding fullmatch_date_iff by blast
  then obtain va vb vc vd ve vf vg vh where v: "decimal_value a = Some va"
    "decimal_value b = Some vb" "decimal_value c = Some vc" "decimal_value d = Some vd"
    "decimal_value e = Some ve" "decimal_value f = Some vf" "decimal_value g = Some vg"
    "decimal_value h = Some vh"
    unfolding is_digit_def by blast
  from asc s have small: "a < 128" "b < 128" "c < 128" "d < 128" "e < 128" "f < 128"
    "g < 128" "h < 128"
    by simp_all
  have chars: "a = 48 + va" "b = 48 + vb" "c = 48 + vc" "d = 48 + vd" "e = 48 + ve"
    "f = 48 + vf" "g = 48 + vg" "h = 48 + vh"
    using v small by (simp_all only: decimal_value_ascii)
  have lt: "va < 10" "vb < 10" "vc < 10" "vd < 10" "ve < 10" "vf < 10" "vg < 10" "vh < 10"
    using v by (simp_all only: decimal_value_lt10)
  let ?N = "((va * 10 + vb) * 10 + vc) * 10 + vd"
  let ?M = "ve * 10 + vf"
  let ?D = "vg * 10 + vh"
  from ok have r: "(case mk_date (int ?N) (int ?M) (int ?D) of
         None \<Rightarrow> Inl Invalid_date_value
       | Some candidate \<Rightarrow>
           if date_less candidate MIN_BOOKING_DATE then Inl Date_too_early
           else Inr (isoformat candidate)) = Inr r"
    unfolding s validate_date_matched [OF v] .
  then obtain cand where cand: "mk_date (int ?N) (int ?M) (int ?D) = Some cand"
    by (cases "mk_date (int ?N) (int ?M) (int ?D)") simp_all
  with r have "r = isoformat cand" by (simp split: if_splits)
  also have "\<dots> = [48 + ?N div 10 div 10 div 10, 48 + ?N div 10 div 10 mod 10,
       48 + ?N div 10 mod 10, 48 + ?N mod 10, 45,
       48 + ?M div 10, 48 + ?M mod 10, 45,
       48 + ?D div 10, 48 + ?D mod 10]"
    using isoformat_digits(1) [OF cand] by (simp only: nat_int)
  also have "\<dots> = [48 + va, 48 + vb, 48 + vc, 48 + vd, 45, 48 + ve, 48 + vf, 45,
      48 + vg, 48 + vh]"
    using lt by (simp only: value_digits2)
  also have "\<dots> = s" unfolding s chars ..
  finally show ?thesis .
qed

lemmas date_defs = ascii_def validate_and_normalize_date_def date_pattern_def is_digit_def
  py_int_def int_strip_def int_space_def decimal_value_def decimal_zeros_def mk_date_def
  days_in_month_def is_leap_def date_less_def MIN_BOOKING_DATE_def isoformat_def zero_pad_def
  decimal.simps

text \<open>
  C5, as the claim states it, fails in its last part: the pattern's \<open>\d\<close> and \<open>int\<close> accept
  every Unicode decimal digit, and the result is printed by \<open>isoformat\<close>. The date
  2025-09-10 written in fullwidth digits (U+FF10 to U+FF19) is accepted and comes back in
  ASCII digits, which is another string.
\<close>

theorem validate_date_unchanged_counterexample:
  "validate_and_normalize_date
       [65298, 65296, 65298, 65301, 45, 65296, 65305, 45, 65297, 65296]
     = Inr (ascii ''2025-09-10'')
   \<and> [65298, 65296, 65298, 65301, 45, 65296, 65305, 45, 65297, 65296] \<noteq> ascii ''2025-09-10''"
  by (simp add: date_defs)

text \<open>
  C5, amended. \<open>validate_and_normalize_date\<close> fails with the format error unless the
  string is four digits, a hyphen, two digits, a hyphen and two digits. On such a string
  it fails when year, month and day are not a date of the calendar, fails when the date
  is before 2025-09-02, and otherwise returns the date in the form \<open>YYYY-MM-DD\<close> with
  ASCII digits. So "2025-9-2", "2025-13-01" and "2025-09-01" fail and "2025-09-02" is
  accepted. The result of an accepted string is accepted again and returned as it is, and
  an accepted string of ASCII characters is returned unchanged.
\<close>

theorem validate_date_spec:
  "(\<forall>s. \<not> (\<exists>a b c d e f g h. s = [a, b, c, d, 45, e, f, 45, g, h] \<and> is_digit a \<and> is_digit b
            \<and> is_digit c \<and> is_digit d \<and> is_digit e \<and> is_digit f \<and> is_digit g \<and> is_digit h)
        \<longrightarrow> validate_and_normalize_date s = Inl Date_format)
   \<and> (\<forall>a b c d e f g h. is_digit a \<and> is_digit b \<and> is_digit c \<and> is_digit d \<and> is_digit e
          \<and> is_digit f \<and> is_digit g \<and> is_digit h \<longrightarrow>
        (\<exists>y m dd. py_int [a, b, c, d] = Some y \<and> py_int [e, f] = Some m
           \<and> py_int [g, h] = Some dd
           \<and> validate_and_normalize_date [a, b, c, d, 45, e, f, 45, g, h] =
               (case mk_date y m dd of
                  None \<Rightarrow> Inl Invalid_date_value
                | Some candidate \<Rightarrow>
                    if date_less candidate MIN_BOOKING_DATE then Inl Date_too_early
                    else Inr (isoformat candidate))))
   \<and> validate_and_normalize_date (ascii ''2025-9-2'') = Inl Date_format
   \<and> validate_and_normalize_date (ascii ''2025-13-01'') = Inl Invalid_date_value
   \<and> validate_and_normalize_date (ascii ''2025-09-01'') = Inl Date_too_early
   \<and> validate_and_normalize_date (ascii ''2025-09-02'') = Inr (ascii ''2025-09-02'')
   \<and> (\<forall>s r. validate_and_normalize_date s = Inr r \<longrightarrow> validate_and_normalize_date r = Inr r)
   \<and> (\<forall>s r. validate_and_normalize_date s = Inr r \<and> (\<forall>x \<in> set s. x < 128) \<longrightarrow> r = s)"
proof -
  have a: "\<forall>s. \<not> (\<exists>a b c d e f g h. s = [a, b, c, d, 45, e, f, 45, g, h] \<and> is_digit a
            \<and> is_digit b \<and> is_digit c \<and> is_digit d \<and> is_digit e \<and> is_digit f \<and> is_digit g
            \<and> is_digit h)
        \<longrightarrow> validate_and_normalize_date s = Inl Date_format"
    unfolding fullmatch_date_iff [symmetric] by (intro allI impI) (rule validate_date_unmatched)
  have b: "\<forall>a b c d e f g h. is_digit a \<and> is_digit b \<and> is_digit c \<and> is_digit d \<and> is_digit e
          \<and> is_digit f \<and> is_digit g \<and> is_digit h \<longrightarrow>
        (\<exists>y m dd. py_int [a, b, c, d] = Some y \<and> py_int [e, f] = Some m
           \<and> py_int [g, h] = Some dd
           \<and> validate_and_normalize_date [a, b, c, d, 45, e, f, 45, g, h] =
               (case mk_date y m dd of
                  None \<Rightarrow> Inl Invalid_date_value
                | Some candidate \<Rightarrow>
                    if date_less candidate MIN_BOOKING_DATE then Inl Date_too_early
                    else Inr (isoformat candidate)))"
  proof (intro allI impI, elim conjE)
    fix a b c d e f g h
    assume "is_digit a" "is_digit b" "is_digit c" "is_digit d" "is_digit e" "is_digit f"
      "is_digit g" "is_digit h"
    then obtain va vb vc vd ve vf vg vh where v: "decimal_value a = Some va"
      "decimal_value b = Some vb" "decimal_value c = Some vc" "decimal_value d = Some vd"
      "decimal_value e = Some ve" "decimal_value f = Some vf" "decimal_value g = Some vg"
      "decimal_value h = Some vh"
      unfolding is_digit_def by blast
    have "py_int [a, b, c, d] = Some (int (((va * 10 + vb) * 10 + vc) * 10 + vd))"
      "py_int [e, f] = Some (int (ve * 10 + vf))" "py_int [g, h] = Some (int (vg * 10 + vh))"
      using v by (simp_all only: py_int_4 py_int_2)
    with validate_date_matched [OF v]
    show "\<exists>y m dd. py_int [a, b, c, d] = Some y \<and> py_int [e, f] = Some m
           \<and> py_int [g, h] = Some dd
           \<and> validate_and_normalize_date [a, b, c, d, 45, e, f, 45, g, h] =
               (case mk_date y m dd of
                  None \<Rightarrow> Inl Invalid_date_value
                | Some candidate \<Rightarrow>
                    if date_less candidate MIN_BOOKING_DATE then Inl Date_too_early
                    else Inr (isoformat candidate))"
      by (intro exI conjI)
  qed
  have e1: "validate_and_normalize_date (ascii ''2025-9-2'') = Inl Date_format"
    by (simp add: date_defs)
  have e2: "validate_and_normalize_date (ascii ''2025-13-01'') = Inl Invalid_date_value"
    by (simp add: date_defs)
  have e3: "validate_and_normalize_date (ascii ''2025-09-01'') = Inl Date_too_early"
    by (simp add: date_defs)
  have e4: "validate_and_normalize_date (ascii ''2025-09-02'') = Inr (ascii ''2025-09-02'')"
    by (simp add: date_defs)
  have c: "\<forall>s r. validate_and_normalize_date s = Inr r
      \<longrightarrow> validate_and_normalize_date r = Inr r"
    by (intro allI impI) (rule validate_date_idempotent)
  have d: "\<forall>s r. validate_and_normalize_date s = Inr r \<and> (\<forall>x \<in> set s. x < 128) \<longrightarrow> r = s"
    by (intro allI impI, elim conjE) (rule validate_date_ascii)
  from a b e1 e2 e3 e4 c d show ?thesis by (intro conjI)
qed

theorem validate_date_spec_witness:
  "\<not> (\<exists>a b c d e f g h. ascii ''2025-9-2'' = [a, b, c, d, 45, e, f, 45, g, h] \<and> is_digit a
        \<and> is_digit b \<and> is_digit c \<and> is_digit d \<and> is_digit e \<and> is_digit f \<and> is_digit g
        \<and> is_digit h)
   \<and> validate_and_normalize_date (ascii ''2025-9-2'') = Inl Date_format
   \<and> is_digit 50 \<and> is_digit 48 \<and> is_digit 53 \<and> is_digit 49 \<and> is_digit 51
   \<and> (\<exists>y m dd. py_int [50, 48, 50, 53] = Some y \<and> py_int [49, 51] = Some m
         \<and> py_int [48, 49] = Some dd
         \<and> validate_and_normalize_date [50, 48, 50, 53, 45, 49, 51, 45, 48, 49] =
             (case mk_date y m dd of
                None \<Rightarrow> Inl Invalid_date_value
              | Some candidate \<Rightarrow>
                  if date_less candidate MIN_BOOKING_DATE then Inl Date_too_early
                  else Inr (isoformat candidate)))
   \<and> validate_and_normalize_date
         [65298, 65296, 65298, 65301, 45, 65296, 65305, 45, 65297, 65296]
       = Inr (ascii ''2025-09-10'')
   \<and> validate_and_normalize_date (ascii ''2025-09-10'') = Inr (ascii ''2025-09-10'')
   \<and> validate_and_normalize_date (ascii ''2028-02-29'') = Inr (ascii ''2028-02-29'')"
proof -
  let ?fw = "[65298, 65296, 65298, 65301, 45, 65296, 65305, 45, 65297, 65296] :: str"
  have h1: "\<not> (\<exists>a b c d e f g h. ascii ''2025-9-2'' = [a, b, c, d, 45, e, f, 45, g, h]
        \<and> is_digit a \<and> is_digit b \<and> is_digit c \<and> is_digit d \<and> is_digit e \<and> is_digit f
        \<and> is_digit g \<and> is_digit h)"
    by (simp add: ascii_def)
  have dg: "is_digit 50" "is_digit 48" "is_digit 53" "is_digit 49" "is_digit 51"
    by (simp_all add: is_digit_def decimal_value_def decimal_zeros_def)
  have h3: "validate_and_normalize_date ?fw = Inr (ascii ''2025-09-10'')"
    by (simp add: date_defs)
  have h4: "validate_and_normalize_date (ascii ''2028-02-29'') = Inr (ascii ''2028-02-29'')"
    by (simp add: date_defs)
  have h5: "\<forall>x \<in> set (ascii ''2028-02-29''). x < 128"
    by (simp add: ascii_def)
  have "\<forall>s. \<not> (\<exists>a b c d e f g h. s = [a, b, c, d, 45, e, f, 45, g, h] \<and> is_digit a
            \<and> is_digit b \<and> is_digit c \<and> is_digit d \<and> is_digit e \<and> is_digit f \<and> is_digit g
            \<and> is_digit h)
        \<longrightarrow> validate_and_normalize_date s = Inl Date_format"
    using validate_date_spec by (elim conjE)
  then have r1: "validate_and_normalize_date (ascii ''2025-9-2'') = Inl Date_format"
    using h1 by (elim allE impE) assumption+
  have "\<forall>a b c d e f g h. is_digit a \<and> is_digit b \<and> is_digit c \<and> is_digit d \<and> is_digit e
          \<and> is_digit f \<and> is_digit g \<and> is_digit h \<longrightarrow>
        (\<exists>y m dd. py_int [a, b, c, d] = Some y \<and> py_int [e, f] = Some m
           \<and> py_int [g, h] = Some dd
           \<and> validate_and_normalize_date [a, b, c, d, 45, e, f, 45, g, h] =
               (case mk_date y m dd of
                  None \<Rightarrow> Inl Invalid_date_value
                | Some candidate \<Rightarrow>
                    if date_less candidate MIN_BOOKING_DATE then Inl Date_too_early
                    else Inr (isoformat candidate)))"
    using validate_date_spec by (elim conjE)
  moreover have "is_digit 50 \<and> is_digit 48 \<and> is_digit 50 \<and> is_digit 53 \<and> is_digit 49
      \<and> is_digit 51 \<and> is_digit 48 \<and> is_digit 49"
    using dg by (intro conjI)
  ultimately have r2: "\<exists>y m dd. py_int [50, 48, 50, 53] = Some y \<and> py_int [49, 51] = Some m
         \<and> py_int [48, 49] = Some dd
         \<and> validate_and_normalize_date [50, 48, 50, 53, 45, 49, 51, 45, 48, 49] =
             (case mk_date y m dd of
                None \<Rightarrow> Inl Invalid_date_value
              | Some candidate \<Rightarrow>
                  if date_less candidate MIN_BOOKING_DATE then Inl Date_too_early
                  else Inr (isoformat candidate))"
    by (elim allE impE) assumption+
  have "\<forall>s r. validate_and_normalize_date s = Inr r
      \<longrightarrow> validate_and_normalize_date r = Inr r"
    using validate_date_spec by (elim conjE)
  then have r3: "validate_and_normalize_date (ascii ''2025-09-10'') = Inr (ascii ''2025-09-10'')"
    using h3 by (elim allE impE) assumption+
  have "\<forall>s r. validate_and_normalize_date s = Inr r \<and> (\<forall>x \<in> set s. x < 128) \<longrightarrow> r = s"
    using validate_date_spec by (elim conjE)
  then have "validate_and_normalize_date (ascii ''2028-02-29'') = Inr (ascii ''2028-02-29'')
      \<and> (\<forall>x \<in> set (ascii ''2028-02-29''). x < 128) \<longrightarrow> ascii ''2028-02-29'' = ascii ''2028-02-29''"
    by (elim allE)
  moreover from h4 h5
  have "validate_and_normalize_date (ascii ''2028-02-29'') = Inr (ascii ''2028-02-29'')
      \<and> (\<forall>x \<in> set (ascii ''2028-02-29''). x < 128)" ..
  ultimately have "ascii ''2028-02-29'' = ascii ''2028-02-29''" by (rule mp)
  from h1 r1 dg r2 h3 r3 h4 show ?thesis by (intro conjI)
qed

section \<open>The constructors\<close>

lemma validate_time_accepts:
  assumes "validate_time s f = Inr r"
  shows "\<exists>h m. hour_minute s = Inr (h, m) \<and> 0 \<le> h \<and> h \<le> 23 \<and> 0 \<le> m \<and> m \<le> 59
      \<and> parse_time_to_minutes s = h * 60 + m"
proof -
  from assms have "fullmatch time_pattern s" by (rule validate_time_Inr(2))
  from validate_time_cases [OF this, of f] obtain h m where
    hm: "hour_minute s = Inr (h, m)" "0 \<le> h" "0 \<le> m"
      "parse_time_to_minutes s = h * 60 + m"
    and v: "validate_time s f =
          (if \<not> (0 \<le> h \<and> h \<le> 23) then Inl (Hour_range f)
           else if \<not> (0 \<le> m \<and> m \<le> 59) then Inl (Minute_range f)
           else Inr s)"
    by blast
  from v assms have "h \<le> 23" "m \<le> 59" by (auto split: if_splits)
  with hm show ?thesis by blast
qed

lemma validate_time_field: "validate_time s f = Inr r \<Longrightarrow> validate_time s g = Inr s"
proof -
  assume a: "validate_time s f = Inr r"
  then have m: "fullmatch time_pattern s" by (rule validate_time_Inr(2))
  from validate_time_cases [OF m, of f] validate_time_cases [OF m, of g] a
  show ?thesis by (auto split: if_splits)
qed

lemma clock_order:
  fixes h1 m1 h2 m2 :: int
  assumes "0 \<le> m1" "m1 \<le> 59" "0 \<le> m2" "m2 \<le> 59"
  shows "(h2 < h1 \<or> (h1 = h2 \<and> m2 \<le> m1)) \<longleftrightarrow> h2 * 60 + m2 \<le> h1 * 60 + m1"
  using assms by auto

lemma AmenityBooking_valid:
  assumes d: "validate_and_normalize_date ds = Inr d"
    and s: "validate_time st (ascii ''start_time'') = Inr st"
    and e: "validate_time et (ascii ''end_time'') = Inr et"
  shows "AmenityBooking bid un fac ds st et stat cr =
      (if parse_time_to_minutes et \<le> parse_time_to_minutes st then Inl Start_not_earlier
       else Inr \<lparr>booking_id = bid, unit = un, facility_type = fac, date = d,
                 start_time = st, end_time = et, status = stat, created_by = cr\<rparr>)"
proof -
  from validate_time_accepts [OF s] obtain h1 m1 where
    a: "hour_minute st = Inr (h1, m1)" "0 \<le> m1" "m1 \<le> 59"
      "parse_time_to_minutes st = h1 * 60 + m1"
    by blast
  from validate_time_accepts [OF e] obtain h2 m2 where
    b: "hour_minute et = Inr (h2, m2)" "0 \<le> m2" "m2 \<le> 59"
      "parse_time_to_minutes et = h2 * 60 + m2"
    by blast
  have "(h2 < h1 \<or> (h1 = h2 \<and> m2 \<le> m1)) \<longleftrightarrow> h2 * 60 + m2 \<le> h1 * 60 + m1"
    using a(2,3) b(2,3) by (rule clock_order)
  then show ?thesis
    unfolding AmenityBooking_def by (simp add: d s e a(1,4) b(1,4))
qed

lemma AmenityBooking_Inr:
  assumes "AmenityBooking bid un fac ds st et stat cr = Inr b"
  shows "validate_and_normalize_date (date b) = Inr (date b)
      \<and> validate_time (start_time b) (ascii ''start_time'') = Inr (start_time b)
      \<and> validate_time (end_time b) (ascii ''end_time'') = Inr (end_time b)
      \<and> parse_time_to_minutes (start_time b) < parse_time_to_minutes (end_time b)"
proof -
  obtain d where d: "validate_and_normalize_date ds = Inr d"
  proof (cases "validate_and_normalize_date ds")
    case (Inl x)
    with assms show ?thesis by (simp add: AmenityBooking_def)
  next
    case (Inr d)
    then show ?thesis by (rule that)
  qed
  obtain st' where s': "validate_time st (ascii ''start_time'') = Inr st'"
  proof (cases "validate_time st (ascii ''start_time'')")
    case (Inl x)
    with assms d show ?thesis by (simp add: AmenityBooking_def)
  next
    case (Inr y)
    then show ?thesis by (rule that)
  qed
  then have s: "validate_time st (ascii ''start_time'') = Inr st"
    by (rule validate_time_field)
  obtain et' where e': "validate_time et (ascii ''end_time'') = Inr et'"
  proof (cases "validate_time et (ascii ''end_time'')")
    case (Inl x)
    with assms d s show ?thesis by (simp add: AmenityBooking_def)
  next
    case (Inr y)
    then show ?thesis by (rule that)
  qed
  then have e: "validate_time et (ascii ''end_time'') = Inr et"
    by (rule validate_time_field)
  from assms have r: "(if parse_time_to_minutes et \<le> parse_time_to_minutes st
       then Inl Start_not_earlier
       else Inr \<lparr>booking_id = bid, unit = un, facility_type = fac, date = d,
                 start_time = st, end_time = et, status = stat, created_by = cr\<rparr>) = Inr b"
    unfolding AmenityBooking_valid [OF d s e] .
  then have lt: "parse_time_to_minutes st < parse_time_to_minutes et"
    by (simp split: if_splits)
  with r have b: "b = \<lparr>booking_id = bid, unit = un, facility_type = fac, date = d,
                 start_time = st, end_time = et, status = stat, created_by = cr\<rparr>"
    by simp
  from d have "validate_and_normalize_date d = Inr d" by (rule validate_date_idempotent)
  with s e lt show ?thesis unfolding b by simp
qed

text \<open>
  C7, as the claim states it, fails for the constructor of the JSON variant
  (\<open>CCT211_Project2.py\<close>), which validates nothing: it builds a booking on 2020-01-01
  from "9:00" to "25:00", a date before the minimum and two times that \<open>validate_time\<close>
  refuses. (That variant's form lets these entries through: the date is well-formed and
  both times convert to minutes, the end after the start.)
\<close>

theorem json_constructor_keeps_invalid_fields_counterexample:
  "date (AmenityBooking_Project2 5 (ascii ''101'') (ascii ''Party Room'') (ascii ''2020-01-01'')
           (ascii ''9:00'') (ascii ''25:00'') (ascii ''Booked'') (ascii ''amy''))
     = ascii ''2020-01-01''
   \<and> start_time (AmenityBooking_Project2 5 (ascii ''101'') (ascii ''Party Room'')
           (ascii ''2020-01-01'') (ascii ''9:00'') (ascii ''25:00'') (ascii ''Booked'')
           (ascii ''amy''))
     = ascii ''9:00''
   \<and> end_time (AmenityBooking_Project2 5 (ascii ''101'') (ascii ''Party Room'')
           (ascii ''2020-01-01'') (ascii ''9:00'') (ascii ''25:00'') (ascii ''Booked'')
           (ascii ''amy''))
     = ascii ''25:00''
   \<and> validate_and_normalize_date (ascii ''2020-01-01'') = Inl Date_too_early
   \<and> validate_time (ascii ''9:00'') (ascii ''start_time'')
     = Inl (Time_format (ascii ''start_time''))
   \<and> validate_time (ascii ''25:00'') (ascii ''end_time'')
     = Inl (Hour_range (ascii ''end_time''))"
  by (simp add: AmenityBooking_Project2_def date_defs time_defs)

text \<open>
  C7, amended to the constructor of the SQLite variant (\<open>CCT211.py\<close>). It runs the date
  validator on the date string and the time validator on both time strings and fails
  with their error, in this order. When all three are valid it fails with the ordering
  error exactly when the start is not before the end, and otherwise builds the booking
  with the normalized date and the two time strings. Whatever it builds has a date and
  times that the validators accept as they are, with the start before the end.
\<close>

theorem constructor_validates:
  "(\<forall>bid un fac ds st et stat cr e.
      validate_and_normalize_date ds = Inl e \<longrightarrow>
      AmenityBooking bid un fac ds st et stat cr = Inl e)
   \<and> (\<forall>bid un fac ds st et stat cr d e.
      validate_and_normalize_date ds = Inr d
      \<and> validate_time st (ascii ''start_time'') = Inl e \<longrightarrow>
      AmenityBooking bid un fac ds st et stat cr = Inl e)
   \<and> (\<forall>bid un fac ds st et stat cr d e.
      validate_and_normalize_date ds = Inr d
      \<and> validate_time st (ascii ''start_time'') = Inr st
      \<and> validate_time et (ascii ''end_time'') = Inl e \<longrightarrow>
      AmenityBooking bid un fac ds st et stat cr = Inl e)
   \<and> (\<forall>bid un fac ds st et stat cr d.
      validate_and_normalize_date ds = Inr d
      \<and> validate_time st (ascii ''start_time'') = Inr st
      \<and> validate_time et (ascii ''end_time'') = Inr et \<longrightarrow>
      AmenityBooking bid un fac ds st et stat cr =
        (if parse_time_to_minutes et \<le> parse_time_to_minutes st then Inl Start_not_earlier
         else Inr \<lparr>booking_id = bid, unit = un, facility_type = fac, date = d,
                   start_time = st, end_time = et, status = stat, created_by = cr\<rparr>))
   \<and> (\<forall>bid un fac ds st et stat cr b.
      AmenityBooking bid un fac ds st et stat cr = Inr b \<longrightarrow>
      validate_and_normalize_date (date b) = Inr (date b)
      \<and> validate_time (start_time b) (ascii ''start_time'') = Inr (start_time b)
      \<and> validate_time (end_time b) (ascii ''end_time'') = Inr (end_time b)
      \<and> parse_time_to_minutes (start_time b) < parse_time_to_minutes (end_time b))"
proof -
  have a: "\<forall>bid un fac ds st et stat cr e.
      validate_and_normalize_date ds = Inl e \<longrightarrow>
      AmenityBooking bid un fac ds st et stat cr = Inl e"
    by (simp add: AmenityBooking_def)
  have b: "\<forall>bid un fac ds st et stat cr d e.
      validate_and_normalize_date ds = Inr d
      \<and> validate_time st (ascii ''start_time'') = Inl e \<longrightarrow>
      AmenityBooking bid un fac ds st et stat cr = Inl e"
    by (simp add: AmenityBooking_def)
  have c: "\<forall>bid un fac ds st et stat cr d e.
      validate_and_normalize_date ds = Inr d
      \<and> validate_time st (ascii ''start_time'') = Inr st
      \<and> validate_time et (ascii ''end_time'') = Inl e \<longrightarrow>
      AmenityBooking bid un fac ds st et stat cr = Inl e"
    by (simp add: AmenityBooking_def)
  have d: "\<forall>bid un fac ds st et stat cr d.
      validate_and_normalize_date ds = Inr d
      \<and> validate_time st (ascii ''start_time'') = Inr st
      \<and> validate_time et (ascii ''end_time'') = Inr et \<longrightarrow>
      AmenityBooking bid un fac ds st et stat cr =
        (if parse_time_to_minutes et \<le> parse_time_to_minutes st then Inl Start_not_earlier
         else Inr \<lparr>booking_id = bid, unit = un, facility_type = fac, date = d,
                   start_time = st, end_time = et, status = stat, created_by = cr\<rparr>)"
    by (intro allI impI, elim conjE) (rule AmenityBooking_valid)
  have e: "\<forall>bid un fac ds st et stat cr b.
      AmenityBooking bid un fac ds st et stat cr = Inr b \<longrightarrow>
      validate_and_normalize_date (date b) = Inr (date b)
      \<and> validate_time (start_time b) (ascii ''start_time'') = Inr (start_time b)
      \<and> validate_time (end_time b) (ascii ''end_time'') = Inr (end_time b)
      \<and> parse_time_to_minutes (start_time b) < parse_time_to_minutes (end_time b)"
    by (intro allI impI) (rule AmenityBooking_Inr)
  from a b c d e show ?thesis by (intro conjI)
qed

theorem constructor_validates_witness:
  "validate_and_normalize_date (ascii ''2025-9-2'') = Inl Date_format
   \<and> AmenityBooking 1 (ascii ''101'') (ascii ''Meeting Room'') (ascii ''2025-9-2'')
        (ascii ''10:00'') (ascii ''11:00'') (ascii ''Booked'') [] = Inl Date_format
   \<and> validate_and_normalize_date (ascii ''2025-09-10'') = Inr (ascii ''2025-09-10'')
   \<and> validate_time (ascii ''9:00'') (ascii ''start_time'')
       = Inl (Time_format (ascii ''start_time''))
   \<and> AmenityBooking 1 (ascii ''101'') (ascii ''Meeting Room'') (ascii ''2025-09-10'')
        (ascii ''9:00'') (ascii ''11:00'') (ascii ''Booked'') []
       = Inl (Time_format (ascii ''start_time''))
   \<and> validate_time (ascii ''10:00'') (ascii ''start_time'') = Inr (ascii ''10:00'')
   \<and> validate_time (ascii ''24:00'') (ascii ''end_time'')
       = Inl (Hour_range (ascii ''end_time''))
   \<and> AmenityBooking 1 (ascii ''101'') (ascii ''Meeting Room'') (ascii ''2025-09-10'')
        (ascii ''10:00'') (ascii ''24:00'') (ascii ''Booked'') []
       = Inl (Hour_range (ascii ''end_time''))
   \<and> validate_time (ascii ''11:00'') (ascii ''end_time'') = Inr (ascii ''11:00'')
   \<and> AmenityBooking 1 (ascii ''101'') (ascii ''Meeting Room'') (ascii ''2025-09-10'')
        (ascii ''10:00'') (ascii ''11:00'') (ascii ''Booked'') []
       = Inr (slot 1 ''10:00'' ''11:00'' ''Booked'')
   \<and> validate_time (ascii ''10:00'') (ascii ''end_time'') = Inr (ascii ''10:00'')
   \<and> AmenityBooking 1 (ascii ''101'') (ascii ''Meeting Room'') (ascii ''2025-09-10'')
        (ascii ''10:00'') (ascii ''10:00'') (ascii ''Booked'') []
       = Inl Start_not_earlier
   \<and> validate_and_normalize_date (date (slot 1 ''10:00'' ''11:00'' ''Booked''))
       = Inr (date (slot 1 ''10:00'' ''11:00'' ''Booked''))
   \<and> parse_time_to_minutes (start_time (slot 1 ''10:00'' ''11:00'' ''Booked''))
       < parse_time_to_minutes (end_time (slot 1 ''10:00'' ''11:00'' ''Booked''))"
proof -
  let ?un = "ascii ''101''" and ?fac = "ascii ''Meeting Room''" and ?stat = "ascii ''Booked''"
  let ?good = "ascii ''2025-09-10''"
  let ?b = "slot 1 ''10:00'' ''11:00'' ''Booked''"
  have h1: "validate_and_normalize_date (ascii ''2025-9-2'') = Inl Date_format"
    by (simp add: date_defs)
  have h2: "validate_and_normalize_date ?good = Inr ?good"
    by (simp add: date_defs)
  have h3: "validate_time (ascii ''9:00'') (ascii ''start_time'')
      = Inl (Time_format (ascii ''start_time''))"
    by (simp add: time_defs)
  have h4: "validate_time (ascii ''10:00'') (ascii ''start_time'') = Inr (ascii ''10:00'')"
    by (simp add: time_defs)
  have h5: "validate_time (ascii ''24:00'') (ascii ''end_time'')
      = Inl (Hour_range (ascii ''end_time''))"
    by (simp add: time_defs)
  have h6: "validate_time (ascii ''11:00'') (ascii ''end_time'') = Inr (ascii ''11:00'')"
    by (simp add: time_defs)
  have h7: "validate_time (ascii ''10:00'') (ascii ''end_time'') = Inr (ascii ''10:00'')"
    by (simp add: time_defs)
  have c1: "\<forall>bid un fac ds st et stat cr e.
      validate_and_normalize_date ds = Inl e \<longrightarrow>
      AmenityBooking bid un fac ds st et stat cr = Inl e"
    using constructor_validates by (elim conjE)
  have r1: "AmenityBooking 1 ?un ?fac (ascii ''2025-9-2'') (ascii ''10:00'')
      (ascii ''11:00'') ?stat [] = Inl Date_format"
    by (rule c1 [rule_format]) (rule h1)
  have c2: "\<forall>bid un fac ds st et stat cr d e.
      validate_and_normalize_date ds = Inr d
      \<and> validate_time st (ascii ''start_time'') = Inl e \<longrightarrow>
      AmenityBooking bid un fac ds st et stat cr = Inl e"
    using constructor_validates by (elim conjE)
  have r2: "AmenityBooking 1 ?un ?fac ?good (ascii ''9:00'') (ascii ''11:00'')
      ?stat [] = Inl (Time_format (ascii ''start_time''))"
    by (rule c2 [rule_format]) (rule conjI, rule h2, rule h3)
  have c3: "\<forall>bid un fac ds st et stat cr d e.
      validate_and_normalize_date ds = Inr d
      \<and> validate_time st (ascii ''start_time'') = Inr st
      \<and> validate_time et (ascii ''end_time'') = Inl e \<longrightarrow>
      AmenityBooking bid un fac ds st et stat cr = Inl e"
    using constructor_validates by (elim conjE)
  have r3: "AmenityBooking 1 ?un ?fac ?good (ascii ''10:00'') (ascii ''24:00'')
      ?stat [] = Inl (Hour_range (ascii ''end_time''))"
    by (rule c3 [rule_format]) (rule conjI, rule h2, rule conjI, rule h4, rule h5)
  have c4: "\<forall>bid un fac ds st et stat cr d.
      validate_and_normalize_date ds = Inr d
      \<and> validate_time st (ascii ''start_time'') = Inr st
      \<and> validate_time et (ascii ''end_time'') = Inr et \<longrightarrow>
      AmenityBooking bid un fac ds st et stat cr =
        (if parse_time_to_minutes et \<le> parse_time_to_minutes st then Inl Start_not_earlier
         else Inr \<lparr>booking_id = bid, unit = un, facility_type = fac, date = d,
                   start_time = st, end_time = et, status = stat, created_by = cr\<rparr>)"
    using constructor_validates by (elim conjE)
  have "AmenityBooking 1 ?un ?fac ?good (ascii ''10:00'') (ascii ''11:00'') ?stat [] =
        (if parse_time_to_minutes (ascii ''11:00'') \<le> parse_time_to_minutes (ascii ''10:00'')
         then Inl Start_not_earlier
         else Inr \<lparr>booking_id = 1, unit = ?un, facility_type = ?fac, date = ?good,
                   start_time = ascii ''10:00'', end_time = ascii ''11:00'', status = ?stat,
                   created_by = []\<rparr>)"
    by (rule c4 [rule_format]) (intro conjI h2 h4 h6)
  also have "\<dots> = Inr ?b"
    by (simp add: eval_defs)
  finally have r4: "AmenityBooking 1 ?un ?fac ?good (ascii ''10:00'') (ascii ''11:00'') ?stat []
      = Inr ?b" .
  have "AmenityBooking 1 ?un ?fac ?good (ascii ''10:00'') (ascii ''10:00'') ?stat [] =
        (if parse_time_to_minutes (ascii ''10:00'') \<le> parse_time_to_minutes (ascii ''10:00'')
         then Inl Start_not_earlier
         else Inr \<lparr>booking_id = 1, unit = ?un, facility_type = ?fac, date = ?good,
                   start_time = ascii ''10:00'', end_time = ascii ''10:00'', status = ?stat,
                   created_by = []\<rparr>)"
    by (rule c4 [rule_format]) (intro conjI h2 h4 h7)
  then have r5: "AmenityBooking 1 ?un ?fac ?good (ascii ''10:00'') (ascii ''10:00'') ?stat []
      = Inl Start_not_earlier"
    by (simp only: order_refl if_True)
  have c5: "\<forall>bid un fac ds st et stat cr b.
      AmenityBooking bid un fac ds st et stat cr = Inr b \<longrightarrow>
      validate_and_normalize_date (date b) = Inr (date b)
      \<and> validate_time (start_time b) (ascii ''start_time'') = Inr (start_time b)
      \<and> validate_time (end_time b) (ascii ''end_time'') = Inr (end_time b)
      \<and> parse_time_to_minutes (start_time b) < parse_time_to_minutes (end_time b)"
    using constructor_validates by (elim conjE)
  have all6: "validate_and_normalize_date (date ?b) = Inr (date ?b)
      \<and> validate_time (start_time ?b) (ascii ''start_time'') = Inr (start_time ?b)
      \<and> validate_time (end_time ?b) (ascii ''end_time'') = Inr (end_time ?b)
      \<and> parse_time_to_minutes (start_time ?b) < parse_time_to_minutes (end_time ?b)"
    by (rule c5 [rule_format]) (rule r4)
  from all6 have r6: "validate_and_normalize_date (date ?b) = Inr (date ?b)"
    by (rule conjunct1)
  from all6 have r7: "parse_time_to_minutes (start_time ?b) < parse_time_to_minutes (end_time ?b)"
    by (elim conjE)
  from h1 r1 h2 h3 r2 h4 h5 r3 h6 r4 h7 r5 r6 r7 show ?thesis by (intro conjI)
qed

end
